theory Spec2Isabelle
  imports Complex_Main
begin

section \<open>Strings\<close>

text \<open>
  A JavaScript string is a sequence of UTF-16 code units. A \<^typ>\<open>string\<close> stands for
  one whose code units are all below 256, one \<^typ>\<open>char\<close> per code unit, so a
  \<^typ>\<open>char\<close> is a character of Latin-1.
\<close>

definition dq :: char where
  "dq = CHR 0x22"

definition comma :: char where
  "comma = CHR 0x2C"

text \<open>
  \<open>trim\<close> removes the code units of WhiteSpace and LineTerminator from both ends.
  Below 256 these are tab, line feed, vertical tab, form feed, carriage return, space
  and the no-break space.
\<close>

definition isSpace :: "char \<Rightarrow> bool" where
  "isSpace c = (c = CHR 0x09 \<or> c = CHR 0x0A \<or> c = CHR 0x0B \<or> c = CHR 0x0C
                \<or> c = CHR 0x0D \<or> c = CHR 0x20 \<or> c = CHR 0xA0)"

definition trim :: "string \<Rightarrow> string" where
  "trim s = rev (dropWhile isSpace (rev (dropWhile isSpace s)))"

text \<open>The seven characters named above, for the statements about \<open>trim\<close>.\<close>

abbreviation blanks :: "char set" where
  "blanks \<equiv> {CHR 0x09, CHR 0x0A, CHR 0x0B, CHR 0x0C, CHR 0x0D, CHR 0x20, CHR 0xA0}"

text \<open>
  \<open>toLowerCase\<close>: the capital letters below 256 are \<open>A\<close> to \<open>Z\<close> and 0xC0 to 0xDE
  without the multiplication sign 0xD7; each has its small letter 32 places up.
\<close>

definition lowerChar :: "char \<Rightarrow> char" where
  "lowerChar c = (let n = (of_char c :: nat) in
                  if (65 \<le> n \<and> n \<le> 90) \<or> (192 \<le> n \<and> n \<le> 222 \<and> n \<noteq> 215)
                  then char_of (n + 32) else c)"

definition toLowerCase :: "string \<Rightarrow> string" where
  "toLowerCase s = map lowerChar s"

text \<open>
  \<open>toUpperCase\<close> does not stay below 256: the micro sign 0xB5 becomes U+039C, the
  letter 0xFF becomes U+0178, and the sharp s 0xDF becomes the two letters \<open>SS\<close>. The
  other small letters, \<open>a\<close> to \<open>z\<close> and 0xE0 to 0xFE without the division sign 0xF7,
  have their capital 32 places down. So the result is a list of code units given as
  numbers; \<open>units\<close> gives the code units of a string for the comparison with it.
\<close>

definition upperUnits :: "char \<Rightarrow> nat list" where
  "upperUnits c = (let n = (of_char c :: nat) in
                   if 97 \<le> n \<and> n \<le> 122 then [n - 32]
                   else if n = 181 then [924]
                   else if n = 223 then [83, 83]
                   else if 224 \<le> n \<and> n \<le> 254 \<and> n \<noteq> 247 then [n - 32]
                   else if n = 255 then [376]
                   else [n])"

definition toUpperCase :: "string \<Rightarrow> nat list" where
  "toUpperCase s = concat (map upperUnits s)"

definition units :: "string \<Rightarrow> nat list" where
  "units s = map of_char s"

text \<open>\<open>s.startsWith(p)\<close>, \<open>s.endsWith(p)\<close> and \<open>s.includes(p)\<close>.\<close>

fun startsWith :: "string \<Rightarrow> string \<Rightarrow> bool" where
  "startsWith s [] = True"
| "startsWith [] (p # ps) = False"
| "startsWith (c # cs) (p # ps) = (c = p \<and> startsWith cs ps)"

definition endsWith :: "string \<Rightarrow> string \<Rightarrow> bool" where
  "endsWith s p = startsWith (rev s) (rev p)"

fun includesStr :: "string \<Rightarrow> string \<Rightarrow> bool" where
  "includesStr [] p = (p = [])"
| "includesStr (c # cs) p = (startsWith (c # cs) p \<or> includesStr cs p)"

text \<open>
  \<open>s.substring(a, b)\<close>: both arguments are clamped to the length of the string and
  swapped when the first is the larger one.
\<close>

definition substring :: "nat \<Rightarrow> nat \<Rightarrow> string \<Rightarrow> string" where
  "substring a b s =
     (let a' = min a (length s); b' = min b (length s);
          lo = min a' b'; hi = max a' b'
      in take (hi - lo) (drop lo s))"

text \<open>\<open>s.split(",")\<close>: the pieces between commas; the empty string gives one empty piece.\<close>

fun splitComma :: "string \<Rightarrow> string list" where
  "splitComma [] = [[]]"
| "splitComma (c # cs) =
     (if c = comma then [] # splitComma cs
      else (case splitComma cs of
              [] \<Rightarrow> [[c]]
            | p # ps \<Rightarrow> (c # p) # ps))"

text \<open>\<open>s.split(/\r?\n/)\<close>: a line ends at a line feed, with the carriage return
  right before it when there is one.\<close>

fun splitLines :: "string \<Rightarrow> string list" where
  "splitLines [] = [[]]"
| "splitLines (c # cs) =
     (if c = CHR 0x0A then [] # splitLines cs
      else if c = CHR 0x0D \<and> startsWith cs [CHR 0x0A] then [] # splitLines (tl cs)
      else (case splitLines cs of
              [] \<Rightarrow> [[c]]
            | p # ps \<Rightarrow> (c # p) # ps))"

section \<open>The line tokenizer\<close>

text \<open>
  \<open>parseLine\<close> collects every match of
  \<^verbatim>\<open>/(?:\"([^\"]*(?:\"\"[^\"]*)*)\")|([^,]+)/g\<close>.
  \<open>matchBody\<close> is the part of the first alternative after the opening quote,
  \<^verbatim>\<open>[^"]*(?:""[^"]*)*"\<close>, run the way a backtracking matcher runs it: the run of
  non-quotes is taken whole (what follows has to be a quote), one more iteration of the
  group is tried before the closing quote, and when the rest of the pattern fails after
  that iteration the matcher falls back to closing at the first quote of the pair.
  After one iteration what is left to match is the same pattern again. It returns the
  text matched and the text left.
\<close>

function matchBody :: "string \<Rightarrow> (string \<times> string) option" where
  "matchBody s =
     (let a = takeWhile (\<lambda>c. c \<noteq> dq) s in
      case dropWhile (\<lambda>c. c \<noteq> dq) s of
        [] \<Rightarrow> None
      | _ # [] \<Rightarrow> Some (a @ [dq], [])
      | _ # c # t \<Rightarrow>
          if c = dq then
            (case matchBody t of
               Some (m, r) \<Rightarrow> Some (a @ [dq, dq] @ m, r)
             | None \<Rightarrow> Some (a @ [dq], c # t))
          else Some (a @ [dq], c # t))"
  by pat_completeness auto
termination
proof (relation "measure length")
  show "wf (measure length)" by simp
next
  fix s :: string and a x2 x21 x22 c t
  assume "dropWhile (\<lambda>c. c \<noteq> dq) s = x21 # x22" and "x22 = c # t"
  then have "length (dropWhile (\<lambda>c. c \<noteq> dq) s) = Suc (Suc (length t))" by simp
  moreover have "length (dropWhile (\<lambda>c. c \<noteq> dq) s) \<le> length s"
    by (rule length_dropWhile_le)
  ultimately show "(t, s) \<in> measure length" by simp
qed

declare matchBody.simps [simp del]

text \<open>The first alternative: an opening quote, then \<open>matchBody\<close>.\<close>

definition matchQuoted :: "string \<Rightarrow> (string \<times> string) option" where
  "matchQuoted s =
     (case s of
        [] \<Rightarrow> None
      | c # t \<Rightarrow>
          if c = dq then
            (case matchBody t of
               Some (m, r) \<Rightarrow> Some (dq # m, r)
             | None \<Rightarrow> None)
          else None)"

text \<open>The second alternative, \<^verbatim>\<open>[^,]+\<close>: the longest run of non-commas, not empty.\<close>

definition matchPlain :: "string \<Rightarrow> (string \<times> string) option" where
  "matchPlain s =
     (let m = takeWhile (\<lambda>c. c \<noteq> comma) s in
      if m = [] then None else Some (m, dropWhile (\<lambda>c. c \<noteq> comma) s))"

text \<open>A match at the start of \<open>s\<close>: the first alternative wins when it matches.\<close>

definition matchAt :: "string \<Rightarrow> (string \<times> string) option" where
  "matchAt s = (case matchQuoted s of Some x \<Rightarrow> Some x | None \<Rightarrow> matchPlain s)"

text \<open>A match is a non-empty prefix of the text it was found in.\<close>

lemma matchBody_split: "matchBody s = Some (m, r) \<Longrightarrow> s = m @ r \<and> m \<noteq> []"
proof (induction s arbitrary: m r rule: matchBody.induct)
  case (1 s)
  let ?a = "takeWhile (\<lambda>c. c \<noteq> dq) s"
  let ?d = "dropWhile (\<lambda>c. c \<noteq> dq) s"
  have s: "?a @ ?d = s" by simp
  show ?case
  proof (cases ?d)
    case Nil
    with "1.prems" show ?thesis by (simp add: matchBody.simps [of s])
  next
    case (Cons x xs)
    then have x: "x = dq" using hd_dropWhile [of "\<lambda>c. c \<noteq> dq" s] by force
    show ?thesis
    proof (cases xs)
      case Nil
      with Cons have "matchBody s = Some (?a @ [dq], [])"
        by (simp add: matchBody.simps [of s])
      with "1.prems" have m: "m = ?a @ [dq]" and r: "r = []" by simp_all
      have "?a @ [dq] = s" using s Cons Nil x by simp
      then have "s = m @ r" unfolding m r by simp
      moreover have "m \<noteq> []" unfolding m by simp
      ultimately show ?thesis by blast
    next
      case inner: (Cons c t)
      have full: "?a @ dq # c # t = s" using s Cons inner x by simp
      show ?thesis
      proof (cases "c = dq \<and> matchBody t \<noteq> None")
        case False
        with Cons inner have "matchBody s = Some (?a @ [dq], c # t)"
          by (cases "matchBody t") (auto simp add: matchBody.simps [of s] Let_def)
        with "1.prems" have m: "m = ?a @ [dq]" and r: "r = c # t" by simp_all
        from full have "s = m @ r" unfolding m r by simp
        moreover have "m \<noteq> []" unfolding m by simp
        ultimately show ?thesis by blast
      next
        case True
        then obtain m' r' where p: "matchBody t = Some (m', r')" by auto
        from True have c: "c = dq" by simp
        from "1.IH" [OF refl Cons inner c p] have t: "t = m' @ r'" by simp
        from c Cons inner p have "matchBody s = Some (?a @ [dq, dq] @ m', r')"
          by (simp add: matchBody.simps [of s])
        with "1.prems" have m: "m = ?a @ [dq, dq] @ m'" and r: "r = r'" by simp_all
        from full have "s = m @ r" unfolding m r t c by simp
        moreover have "m \<noteq> []" unfolding m by simp
        ultimately show ?thesis by blast
      qed
    qed
  qed
qed

lemma matchAt_split: "matchAt s = Some (m, r) \<Longrightarrow> s = m @ r \<and> m \<noteq> []"
proof (cases "matchQuoted s")
  case None
  assume "matchAt s = Some (m, r)"
  with None have "matchPlain s = Some (m, r)" by (simp add: matchAt_def)
  then show ?thesis by (auto simp: matchPlain_def Let_def split: if_splits)
next
  case (Some x)
  assume "matchAt s = Some (m, r)"
  with Some have q: "matchQuoted s = Some (m, r)" by (simp add: matchAt_def)
  then obtain t m' where "s = dq # t" "matchBody t = Some (m', r)" "m = dq # m'"
    by (auto simp: matchQuoted_def split: list.splits if_splits option.splits)
  with matchBody_split [of t m' r] show ?thesis by simp
qed

text \<open>
  The global search of \<open>line.match(re)\<close>: after a match the search goes on where the
  match ended; where nothing matches it moves one code unit to the right.
\<close>

function matchAll :: "string \<Rightarrow> string list" where
  "matchAll [] = []"
| "matchAll (c # cs) =
     (case matchAt (c # cs) of
        Some (m, r) \<Rightarrow> m # matchAll r
      | None \<Rightarrow> matchAll cs)"
  by pat_completeness auto
termination
proof (relation "measure length")
  show "wf (measure length)" by simp
next
  fix c :: char and cs x2 m r
  assume "matchAt (c # cs) = Some x2" and "(m, r) = x2"
  then have "matchAt (c # cs) = Some (m, r)" by simp
  from matchAt_split [OF this] have "length (c # cs) = length m + length r" "m \<noteq> []"
    by (metis length_append, simp)
  then show "(r, c # cs) \<in> measure length" by (cases m) auto
next
  fix c :: char and cs
  show "(cs, c # cs) \<in> measure length" by simp
qed

declare matchAll.simps [simp del]

text \<open>\<open>s.replace(/""/g, '"')\<close>: every pair of quotes, found left to right, becomes one.\<close>

fun unescape :: "string \<Rightarrow> string" where
  "unescape [] = []"
| "unescape [c] = [c]"
| "unescape (c # d # t) =
     (if c = dq \<and> d = dq then dq # unescape t else c # unescape (d # t))"

text \<open>The callback of \<open>matches.map\<close>: what one match contributes.\<close>

definition fieldOf :: "string \<Rightarrow> string" where
  "fieldOf m =
     (if startsWith m [dq] \<and> endsWith m [dq]
      then trim (unescape (substring 1 (length m - 1) m))
      else trim m)"

text \<open>No match at all gives \<open>null\<close>, which \<open>parseLine\<close> turns into the empty array.\<close>

definition parseLine :: "string \<Rightarrow> string list" where
  "parseLine line = map fieldOf (matchAll line)"

text \<open>
  The written form of a quoted field with content \<open>c\<close>: every quote of the content
  doubled, and the whole put between two quotes.
\<close>

fun escapeQuotes :: "string \<Rightarrow> string" where
  "escapeQuotes [] = []"
| "escapeQuotes (c # cs) = (if c = dq then [dq, dq] else [c]) @ escapeQuotes cs"

definition quoteField :: "string \<Rightarrow> string" where
  "quoteField c = dq # escapeQuotes c @ [dq]"

text \<open>
  A line as a list of fields with commas in between. A field is unquoted text or a
  quoted field given by its content. Unquoted text is well formed when it has no
  comma and does not begin with a quote. \<open>tokenOf\<close> is the content of a field
  with the whitespace at its ends removed.
\<close>

datatype field = Plain string | Quoted string

fun written :: "field \<Rightarrow> string" where
  "written (Plain p) = p"
| "written (Quoted c) = quoteField c"

fun joinFields :: "field list \<Rightarrow> string" where
  "joinFields [] = []"
| "joinFields [f] = written f"
| "joinFields (f # g # fs) = written f @ comma # joinFields (g # fs)"

fun wellFormed :: "field \<Rightarrow> bool" where
  "wellFormed (Plain p) = (comma \<notin> set p \<and> \<not> startsWith p [dq])"
| "wellFormed (Quoted c) = True"

fun tokenOf :: "field \<Rightarrow> string" where
  "tokenOf (Plain p) = trim p"
| "tokenOf (Quoted c) = trim c"

section \<open>Question records and the CSV import\<close>

text \<open>
  A question is a JavaScript object whose properties are set one by one, so every
  field is optional: \<open>None\<close> is \<open>undefined\<close>. \<open>question_id\<close> is the property \<open>id\<close>
  that a session adds to its copy of a question.
\<close>

record question =
  q :: "string option"
  options :: "string list option"
  correct :: "string option"
  explanation :: "string option"
  question_id :: "string option"

definition emptyQuestion :: question where
  "emptyQuestion = \<lparr>q = None, options = None, correct = None, explanation = None,
                     question_id = None\<rparr>"

text \<open>Truthiness of a string value that may be \<open>undefined\<close>: defined and not empty.\<close>

definition truthy :: "string option \<Rightarrow> bool" where
  "truthy v = (case v of None \<Rightarrow> False | Some t \<Rightarrow> t \<noteq> [])"

text \<open>\<open>h.replace(/[^a-z0-9]/g, "")\<close> keeps the lower-case letters and the digits.\<close>

definition isLowerAlnum :: "char \<Rightarrow> bool" where
  "isLowerAlnum c = (let n = (of_char c :: nat) in
                     (97 \<le> n \<and> n \<le> 122) \<or> (48 \<le> n \<and> n \<le> 57))"

definition mapHeader :: "string \<Rightarrow> string option" where
  "mapHeader header =
     (let h = filter isLowerAlnum (toLowerCase (trim header)) in
      if includesStr h ''optiona'' \<or> includesStr h ''option1'' then Some ''option1''
      else if includesStr h ''optionb'' \<or> includesStr h ''option2'' then Some ''option2''
      else if includesStr h ''optionc'' \<or> includesStr h ''option3'' then Some ''option3''
      else if includesStr h ''optiond'' \<or> includesStr h ''option4'' then Some ''option4''
      else if includesStr h ''question'' then Some ''q''
      else if includesStr h ''correctanswer'' \<or> includesStr h ''correct'' then Some ''correct''
      else if includesStr h ''explanation'' then Some ''explanation''
      else None)"

text \<open>
  The locals of one turn of the row loop: the object \<open>question\<close>, the array
  \<open>options\<close> and the flag \<open>hasQuestionText\<close>.
\<close>

record row =
  rowQuestion :: question
  rowOptions :: "string list"
  hasQuestionText :: bool

definition emptyRow :: row where
  "emptyRow = \<lparr>rowQuestion = emptyQuestion, rowOptions = [], hasQuestionText = False\<rparr>"

text \<open>One turn of the inner loop, for the column with role \<open>mappedKey\<close> and value \<open>v\<close>.\<close>

definition assignField :: "string option \<times> string \<Rightarrow> row \<Rightarrow> row" where
  "assignField kv r =
     (let mappedKey = fst kv; v = snd kv in
      if mappedKey = Some ''q''
      then r\<lparr>rowQuestion := (rowQuestion r)\<lparr>q := Some v\<rparr>, hasQuestionText := True\<rparr>
      else if (case mappedKey of None \<Rightarrow> False | Some k \<Rightarrow> startsWith k ''option'')
      then r\<lparr>rowOptions := rowOptions r @ [v]\<rparr>
      else if mappedKey = Some ''correct''
      then r\<lparr>rowQuestion := (rowQuestion r)\<lparr>correct := Some v\<rparr>\<rparr>
      else if mappedKey = Some ''explanation''
      then r\<lparr>rowQuestion := (rowQuestion r)\<lparr>explanation := Some v\<rparr>\<rparr>
      else r)"

text \<open>
  The inner loop runs over \<open>j < values.length\<close>; it is only reached when \<open>values\<close> is
  as long as the header row, so it pairs \<open>headerMap[j]\<close> with \<open>values[j]\<close>.
\<close>

definition assemble :: "string option list \<Rightarrow> string list \<Rightarrow> row" where
  "assemble headerMap values = fold assignField (zip headerMap values) emptyRow"

definition accepted :: "row \<Rightarrow> bool" where
  "accepted r = (hasQuestionText r \<and> 2 \<le> length (rowOptions r)
                 \<and> truthy (correct (rowQuestion r)))"

text \<open>
  The loop over the data lines, with the array \<open>questions\<close> as an accumulator.
  The \<open>console.warn\<close> of a skipped line is not part of the result and is left out.
\<close>

fun parseRows :: "string list \<Rightarrow> string option list \<Rightarrow> string list \<Rightarrow> question list
                  \<Rightarrow> question list" where
  "parseRows rawHeaders headerMap [] questions = questions"
| "parseRows rawHeaders headerMap (l # ls) questions =
     (if trim l = [] then parseRows rawHeaders headerMap ls questions
      else
        let values = parseLine l in
        if length values \<noteq> length rawHeaders
        then parseRows rawHeaders headerMap ls questions
        else
          let r = assemble headerMap values in
          if accepted r
          then parseRows rawHeaders headerMap ls
                 (questions @ [(rowQuestion r)\<lparr>options := Some (rowOptions r)\<rparr>])
          else parseRows rawHeaders headerMap ls questions)"

definition parseCSV :: "string \<Rightarrow> question list" where
  "parseCSV csvText =
     (if csvText = [] then []
      else
        case splitLines (trim csvText) of
          [] \<Rightarrow> []
        | header # dataLines \<Rightarrow>
            let rawHeaders = splitComma header;
                headerMap = map mapHeader rawHeaders
            in parseRows rawHeaders headerMap dataLines [])"

text \<open>
  What a row holds for a role, read off the header map: the values of the columns
  mapped to \<open>role\<close>, the values of the columns mapped to an option role, both in column
  order, and the value a property ends with after being assigned each of \<open>vs\<close> in turn.
\<close>

definition isOptionKey :: "string option \<Rightarrow> bool" where
  "isOptionKey k = (case k of None \<Rightarrow> False | Some r \<Rightarrow> startsWith r ''option'')"

definition valuesOf :: "string \<Rightarrow> string option list \<Rightarrow> string list \<Rightarrow> string list" where
  "valuesOf role headerMap values =
     map snd (filter (\<lambda>kv. fst kv = Some role) (zip headerMap values))"

definition optionValues :: "string option list \<Rightarrow> string list \<Rightarrow> string list" where
  "optionValues headerMap values =
     map snd (filter (\<lambda>kv. isOptionKey (fst kv)) (zip headerMap values))"

definition lastOr :: "string option \<Rightarrow> string list \<Rightarrow> string option" where
  "lastOr d vs = (if vs = [] then d else Some (last vs))"

section \<open>Checking an answer\<close>

text \<open>\<open>xs.indexOf(x)\<close>, with \<open>None\<close> for \<open>-1\<close>; \<open>undefined\<close> is in no array of strings.\<close>

fun indexOf :: "'a list \<Rightarrow> 'a option \<Rightarrow> nat option" where
  "indexOf [] x = None"
| "indexOf (y # ys) x =
     (if x = Some y then Some 0 else map_option Suc (indexOf ys x))"

text \<open>\<open>xs[i]\<close>: \<open>undefined\<close> out of range.\<close>

definition elemAt :: "'a list \<Rightarrow> nat \<Rightarrow> 'a option" where
  "elemAt xs i = (if i < length xs then Some (xs ! i) else None)"

text \<open>The second argument is \<open>None\<close> when the caller has no question to pass.\<close>

definition checkAnswer :: "string \<Rightarrow> question option \<Rightarrow> bool" where
  "checkAnswer selectedOption question =
     (case question of
        None \<Rightarrow> False
      | Some qu \<Rightarrow>
          if Some selectedOption = correct qu then True
          else
            let correctChar = map_option (\<lambda>c. toUpperCase (trim c)) (correct qu) in
            case indexOf [units ''A'', units ''B'', units ''C'', units ''D''] correctChar of
              None \<Rightarrow> False
            | Some idx \<Rightarrow>
                (case options qu of
                   None \<Rightarrow> False
                 | Some opts \<Rightarrow> elemAt opts idx = Some selectedOption))"

section \<open>The state of the application\<close>

datatype quizState = TOPIC_SELECT | PRACTICE | SUMMARY

record topic =
  topic_id :: string
  topicName :: string
  questions :: "question list"

text \<open>
  An entry of \<open>userResponses\<close>. \<open>selectedOption\<close> is \<open>None\<close> when it is \<open>null\<close> or
  missing. The two flags are only ever read for their truthiness, so a missing flag is
  \<open>False\<close>.
\<close>

record response =
  selectedOption :: "string option"
  isCorrect :: bool
  isExplanationVisible :: bool

definition noResponse :: response where
  "noResponse = \<lparr>selectedOption = None, isCorrect = False, isExplanationVisible = False\<rparr>"

text \<open>
  \<open>userResponses\<close> is an object keyed by question index. \<open>Object.entries\<close> lists
  integer keys in ascending order, so the object is a list of entries kept in
  ascending order of the key; \<open>setEntry\<close> is the update \<open>{...prev, [k]: v}\<close> and
  \<open>getEntry\<close> the read \<open>prev[k]\<close>.
\<close>

type_synonym responses = "(nat \<times> response) list"

fun setEntry :: "nat \<Rightarrow> response \<Rightarrow> responses \<Rightarrow> responses" where
  "setEntry k v [] = [(k, v)]"
| "setEntry k v ((j, w) # rs) =
     (if k < j then (k, v) # (j, w) # rs
      else if k = j then (k, v) # rs
      else (j, w) # setEntry k v rs)"

fun getEntry :: "responses \<Rightarrow> nat \<Rightarrow> response option" where
  "getEntry [] k = None"
| "getEntry ((j, w) # rs) k = (if k = j then Some w else getEntry rs k)"

record app =
  topics :: "topic list"
  quizState :: quizState
  csvContent :: string
  fileName :: "string option"
  newTopicName :: string
  currentQuestions :: "question list"
  currentQuestionIndex :: nat
  userResponses :: responses
  isDrawerOpen :: bool
  message :: string
  selectedTopicIds :: "string list"
  openMenuId :: "string option"

text \<open>The initial values of the \<open>useState\<close> hooks.\<close>

definition initialApp :: app where
  "initialApp = \<lparr>topics = [], quizState = TOPIC_SELECT, csvContent = [], fileName = None,
                  newTopicName = [], currentQuestions = [], currentQuestionIndex = 0,
                  userResponses = [], isDrawerOpen = False, message = [],
                  selectedTopicIds = [], openMenuId = None\<rparr>"

text \<open>The decimal digits of a number, as template literals print it.\<close>

function showNat :: "nat \<Rightarrow> string" where
  "showNat n = (if n < 10 then [char_of (48 + n)]
                else showNat (n div 10) @ [char_of (48 + n mod 10)])"
  by pat_completeness auto
termination
  by (relation "measure id") auto

declare showNat.simps [simp del]

section \<open>Starting a session and importing a topic\<close>

text \<open>
  \<open>startPractice\<close>. The argument is \<open>None\<close> when the caller passes no list.
  \<open>Date.now()\<close> is read once for each question: \<open>clock i\<close> is the value read for the
  question at index \<open>i\<close>.
\<close>

definition withIds :: "(nat \<Rightarrow> nat) \<Rightarrow> question list \<Rightarrow> question list" where
  "withIds clock questionsList =
     map (\<lambda>(i, qu). qu\<lparr>question_id := Some (showNat i @ ''-'' @ showNat (clock i))\<rparr>)
         (enumerate 0 questionsList)"

definition startPractice :: "(nat \<Rightarrow> nat) \<Rightarrow> question list option \<Rightarrow> app \<Rightarrow> app" where
  "startPractice clock questionsList s =
     (case questionsList of
        None \<Rightarrow> s\<lparr>message := ''No questions to practice.''\<rparr>
      | Some l \<Rightarrow>
          if length l = 0 then s\<lparr>message := ''No questions to practice.''\<rparr>
          else s\<lparr>currentQuestions := withIds clock l,
                 currentQuestionIndex := 0,
                 userResponses := [],
                 quizState := PRACTICE,
                 isDrawerOpen := False\<rparr>)"

text \<open>
  \<open>handleImport\<close>, with \<open>now\<close> the value of \<open>Date.now()\<close>. The timer that blanks the
  message three seconds after a successful import is a later event and is not part of
  this step.
\<close>

definition handleImport :: "nat \<Rightarrow> app \<Rightarrow> app" where
  "handleImport now s =
     (if trim (csvContent s) = [] then s\<lparr>message := ''Please select a file OR paste content.''\<rparr>
      else if trim (newTopicName s) = [] then s\<lparr>message := ''Enter topic name.''\<rparr>
      else
        let parsed = parseCSV (csvContent s) in
        if length parsed = 0 then s\<lparr>message := ''No valid questions parsed from content.''\<rparr>
        else if list_ex (\<lambda>t. toLowerCase (topicName t) = toLowerCase (trim (newTopicName s)))
                        (topics s)
        then s\<lparr>message := ''Topic with this name already exists.''\<rparr>
        else
          let newTopic = \<lparr>topic_id = ''topic-'' @ showNat now,
                          topicName = trim (newTopicName s),
                          questions = parsed\<rparr>
          in s\<lparr>topics := newTopic # topics s,
                 csvContent := [],
                 newTopicName := [],
                 fileName := None,
                 message := ''Saved '' @ [CHR 0x27] @ topicName newTopic @ [CHR 0x27] @ '' (''
                            @ showNat (length parsed) @ '' questions)''\<rparr>)"

section \<open>The practice screen\<close>

definition currentQuestion :: "app \<Rightarrow> question option" where
  "currentQuestion s = elemAt (currentQuestions s) (currentQuestionIndex s)"

definition responseAt :: "responses \<Rightarrow> nat \<Rightarrow> response" where
  "responseAt rs k = (case getEntry rs k of None \<Rightarrow> noResponse | Some r \<Rightarrow> r)"

definition currentResponse :: "app \<Rightarrow> response" where
  "currentResponse s = responseAt (userResponses s) (currentQuestionIndex s)"

definition handleOptionSelect :: "string \<Rightarrow> app \<Rightarrow> app" where
  "handleOptionSelect option s =
     (let isCorrect = checkAnswer option (currentQuestion s);
          prev = userResponses s;
          k = currentQuestionIndex s
      in s\<lparr>userResponses :=
             setEntry k \<lparr>selectedOption = Some option,
                         isCorrect = isCorrect,
                         isExplanationVisible =
                           (case getEntry prev k of
                              None \<Rightarrow> False
                            | Some r \<Rightarrow> isExplanationVisible r)\<rparr> prev\<rparr>)"

text \<open>The handler of the explanation toggle.\<close>

definition onPressExplanation :: "app \<Rightarrow> app" where
  "onPressExplanation s =
     (let prev = userResponses s; k = currentQuestionIndex s in
      s\<lparr>userResponses :=
          setEntry k ((responseAt prev k)
                        \<lparr>isExplanationVisible := \<not> isExplanationVisible (currentResponse s)\<rparr>)
                   prev\<rparr>)"

text \<open>What both navigation buttons do to the entry of the index they move to.\<close>

definition hideExplanation :: "nat \<Rightarrow> responses \<Rightarrow> responses" where
  "hideExplanation newIndex prev =
     setEntry newIndex ((responseAt prev newIndex)\<lparr>isExplanationVisible := False\<rparr>) prev"

text \<open>The handler of the Previous button.\<close>

definition onPressPrevious :: "app \<Rightarrow> app" where
  "onPressPrevious s =
     (if currentQuestionIndex s > 0 then
        let newIndex = currentQuestionIndex s - 1 in
        s\<lparr>userResponses := hideExplanation newIndex (userResponses s),
           currentQuestionIndex := newIndex\<rparr>
      else s\<lparr>quizState := TOPIC_SELECT\<rparr>)"

text \<open>The handler of the Next button; \<open>isLast\<close> is computed by the render of the screen.\<close>

definition isLast :: "app \<Rightarrow> bool" where
  "isLast s = (currentQuestionIndex s + 1 = length (currentQuestions s))"

definition onPressNext :: "app \<Rightarrow> app" where
  "onPressNext s =
     (if isLast s then s\<lparr>quizState := SUMMARY\<rparr>
      else
        let newIndex = currentQuestionIndex s + 1 in
        s\<lparr>userResponses := hideExplanation newIndex (userResponses s),
           currentQuestionIndex := newIndex\<rparr>)"

text \<open>The handler of entry \<open>i\<close> of the jump list, drawn for every \<open>i\<close> below the number
  of questions, and the handler of the Menu button.\<close>

definition onPressJump :: "nat \<Rightarrow> app \<Rightarrow> app" where
  "onPressJump i s = s\<lparr>currentQuestionIndex := i, isDrawerOpen := False\<rparr>"

definition onPressMenu :: "app \<Rightarrow> app" where
  "onPressMenu s = s\<lparr>quizState := TOPIC_SELECT\<rparr>"

section \<open>Scoring\<close>

text \<open>
  \<open>calculateScore\<close> computes \<open>Math.round((corrects / attempted) * 100)\<close> on
  JavaScript Numbers, which are IEEE 754 binary64 values: the quotient is rounded to
  the nearest value with a significand of 53 bits (ties to even), then the product is.
  A positive binary64 value is written here as a pair \<open>(m, e)\<close> standing for
  \<open>m * 2 ^ e\<close>. \<open>fl p d\<close> is the nearest such value to the fraction \<open>p / d\<close>.
  The counts are far below \<open>2 ^ 53\<close> and their quotients far from the subnormal range,
  so neither overflow nor gradual underflow is modelled.
\<close>

text \<open>The number of binary digits of \<open>n\<close>.\<close>

function bits :: "nat \<Rightarrow> nat" where
  "bits n = (if n = 0 then 0 else Suc (bits (n div 2)))"
  by pat_completeness auto
termination
  by (relation "measure id") auto

declare bits.simps [simp del]

text \<open>\<open>p / d\<close> rounded to an integer, a tie going to the even neighbour.\<close>

definition roundHalfEven :: "nat \<Rightarrow> nat \<Rightarrow> nat" where
  "roundHalfEven p d =
     (let m = p div d; r = p mod d in
      if 2 * r < d then m
      else if 2 * r > d then m + 1
      else if even m then m else m + 1)"

text \<open>\<open>p / (d * 2 ^ e)\<close> rounded to an integer, for an exponent of either sign.\<close>

definition scaled :: "nat \<Rightarrow> nat \<Rightarrow> int \<Rightarrow> nat" where
  "scaled p d e =
     (if 0 \<le> e then roundHalfEven p (d * 2 ^ nat e)
      else roundHalfEven (p * 2 ^ nat (- e)) d)"

text \<open>
  With \<open>k = bits p - bits d\<close> the fraction lies strictly between \<open>2 ^ (k - 1)\<close> and
  \<open>2 ^ (k + 1)\<close>, so its significand has 53 bits at the exponent \<open>k - 53\<close> or at
  \<open>k - 52\<close>: the second when the fraction is at least \<open>2 ^ k\<close>.
\<close>

definition fl :: "nat \<Rightarrow> nat \<Rightarrow> nat \<times> int" where
  "fl p d =
     (if p = 0 then (0, 0)
      else
        let k = int (bits p) - int (bits d);
            big = (if 0 \<le> k then d * 2 ^ nat k \<le> p else d \<le> p * 2 ^ nat (- k));
            e = (if big then k - 52 else k - 53)
        in (scaled p d e, e))"

text \<open>The quotient of two counts and the product of a binary64 value with a count.\<close>

definition fdiv :: "nat \<Rightarrow> nat \<Rightarrow> nat \<times> int" where
  "fdiv a b = fl a b"

definition fmul :: "nat \<times> int \<Rightarrow> nat \<Rightarrow> nat \<times> int" where
  "fmul x c =
     (let m = fst x; e = snd x in
      if 0 \<le> e then fl (m * 2 ^ nat e * c) 1 else fl (m * c) (2 ^ nat (- e)))"

text \<open>\<open>Math.round\<close>: the nearest integer, a tie going up; that is \<open>floor (x + 1/2)\<close>.\<close>

definition mathRound :: "nat \<times> int \<Rightarrow> nat" where
  "mathRound x =
     (let m = fst x; e = snd x in
      if 0 \<le> e then m * 2 ^ nat e
      else (2 * m + 2 ^ nat (- e)) div (2 * 2 ^ nat (- e)))"

record score =
  finalScore :: nat
  attempted :: nat
  total :: nat
  incorrects :: "question list"
  unanswered :: int
  accuracy :: nat

text \<open>The locals \<open>attempted\<close>, \<open>corrects\<close> and \<open>incorrects\<close> of \<open>calculateScore\<close>.\<close>

record tally =
  tAttempted :: nat
  tCorrects :: nat
  tIncorrects :: "question list"

text \<open>The callback of \<open>forEach\<close>, for the entry with key \<open>k\<close> and value \<open>r\<close>.\<close>

definition countEntry :: "question list \<Rightarrow> nat \<times> response \<Rightarrow> tally \<Rightarrow> tally" where
  "countEntry qs kr t =
     (let k = fst kr; r = snd kr in
      if truthy (selectedOption r) then
        (if isCorrect r
         then t\<lparr>tAttempted := tAttempted t + 1, tCorrects := tCorrects t + 1\<rparr>
         else (case elemAt qs k of
                 None \<Rightarrow> t\<lparr>tAttempted := tAttempted t + 1\<rparr>
               | Some orig \<Rightarrow> t\<lparr>tAttempted := tAttempted t + 1,
                                 tIncorrects := tIncorrects t @ [orig]\<rparr>))
      else t)"

definition calculateScore :: "app \<Rightarrow> score" where
  "calculateScore s =
     (let t = fold (countEntry (currentQuestions s)) (userResponses s)
                \<lparr>tAttempted = 0, tCorrects = 0, tIncorrects = []\<rparr>;
          total = length (currentQuestions s);
          unanswered = int total - int (tAttempted t);
          accuracy = (if tAttempted t > 0
                      then mathRound (fmul (fdiv (tCorrects t) (tAttempted t)) 100)
                      else 0)
      in \<lparr>finalScore = tCorrects t, attempted = tAttempted t, total = total,
          incorrects = tIncorrects t, unanswered = unanswered, accuracy = accuracy\<rparr>)"

text \<open>
  The entries that count as attempted, and the percentage \<open>100 * c / a\<close> rounded to the
  nearest integer in exact arithmetic, a tie going up; \<open>0\<close> when nothing was attempted.
\<close>

definition attemptedEntries :: "app \<Rightarrow> (nat \<times> response) list" where
  "attemptedEntries s = filter (\<lambda>kr. truthy (selectedOption (snd kr))) (userResponses s)"

definition roundedPercent :: "nat \<Rightarrow> nat \<Rightarrow> nat" where
  "roundedPercent c a = (if a > 0 then (200 * c + a) div (2 * a) else 0)"

section \<open>A sample session\<close>

text \<open>Three questions and a session over them in which the first and the third have
  been answered, for the concrete instances below.\<close>

definition italyQuestion :: question where
  "italyQuestion =
     \<lparr>q = Some ''Capital of Italy?'',
      options = Some [''Paris'', ''Rome'', ''Berlin'', ''Madrid''],
      correct = Some ''B'', explanation = Some ''Rome it is.'', question_id = None\<rparr>"

definition sampleQuestions :: "question list" where
  "sampleQuestions =
     [italyQuestion,
      \<lparr>q = Some ''2 + 2?'', options = Some [''3'', ''4''],
       correct = Some ''4'', explanation = None, question_id = None\<rparr>,
      \<lparr>q = Some ''Largest planet?'', options = Some [''Mars'', ''Jupiter'', ''Venus''],
       correct = Some ''b'', explanation = None, question_id = None\<rparr>]"

definition sampleSession :: "nat \<Rightarrow> app" where
  "sampleSession i =
     initialApp\<lparr>quizState := PRACTICE,
                currentQuestions := withIds (\<lambda>i. 1000 + i) sampleQuestions,
                currentQuestionIndex := i,
                userResponses :=
                  [(0, \<lparr>selectedOption = Some ''Rome'', isCorrect = True,
                        isExplanationVisible = True\<rparr>),
                   (2, \<lparr>selectedOption = Some ''Mars'', isCorrect = False,
                        isExplanationVisible = True\<rparr>)]\<rparr>"


text \<open>An import of a topic named \<open>Math\<close> into the empty store, and two further attempts
  under a name that differs in case only: one with the same content, one with content
  that has a header row and no data.\<close>

definition mathCsv :: string where
  "mathCsv = ''question,optiona,optionb,correct'' @ [CHR 0x0A] @ ''2 + 2?,3,4,B''"

definition afterMath :: app where
  "afterMath = handleImport 1 (initialApp\<lparr>csvContent := mathCsv, newTopicName := ''Math''\<rparr>)"

definition secondAttempt :: app where
  "secondAttempt = afterMath\<lparr>csvContent := mathCsv, newTopicName := '' mAtH ''\<rparr>"

definition headerOnlyAttempt :: app where
  "headerOnlyAttempt =
     afterMath\<lparr>csvContent := ''question,optiona,optionb,correct'', newTopicName := ''math''\<rparr>"

text \<open>The same with a name that has a letter outside ASCII, \<open>E\<close> with an acute accent
  (0xC9, small 0xE9), and a no-break space and a tab around the second name.\<close>

definition afterEcole :: app where
  "afterEcole =
     handleImport 1 (initialApp\<lparr>csvContent := mathCsv, newTopicName := [CHR 0xC9] @ ''cole''\<rparr>)"

definition ecoleAttempt :: app where
  "ecoleAttempt =
     afterEcole\<lparr>csvContent := mathCsv,
                newTopicName := [CHR 0xA0, CHR 0xE9] @ ''COLE'' @ [CHR 0x09]\<rparr>"

text \<open>A session over forty questions, each answered in turn with the Next button
  pressed in between: twenty-three right answers, then seventeen wrong ones.\<close>

fun answerInTurn :: "string list \<Rightarrow> app \<Rightarrow> app" where
  "answerInTurn [] s = s"
| "answerInTurn [a] s = handleOptionSelect a s"
| "answerInTurn (a # b # as) s = answerInTurn (b # as) (onPressNext (handleOptionSelect a s))"

definition session23of40 :: app where
  "session23of40 =
     answerInTurn (replicate 23 ''Rome'' @ replicate 17 ''Paris'')
       (startPractice (\<lambda>i. 1000 + i) (Some (replicate 40 italyQuestion)) initialApp)"

section \<open>Properties of the tokenizer\<close>

lemma matchBody_plain_step:
  "x \<noteq> dq \<Longrightarrow> matchBody (x # s) = map_option (\<lambda>(m, r). (x # m, r)) (matchBody s)"
proof -
  assume x: "x \<noteq> dq"
  let ?d = "dropWhile (\<lambda>c. c \<noteq> dq) s"
  from x have d: "dropWhile (\<lambda>c. c \<noteq> dq) (x # s) = ?d"
    and t: "takeWhile (\<lambda>c. c \<noteq> dq) (x # s) = x # takeWhile (\<lambda>c. c \<noteq> dq) s"
    by simp_all
  show ?thesis
  proof (cases ?d)
    case Nil
    show ?thesis
      unfolding matchBody.simps [of "x # s"] matchBody.simps [of s] d t Let_def Nil by simp
  next
    case (Cons y ys)
    show ?thesis
      unfolding matchBody.simps [of "x # s"] matchBody.simps [of s] d t Let_def Cons
      by (cases ys; cases "matchBody (tl ys)") auto
  qed
qed

lemma matchBody_pair_step:
  "matchBody s = Some (m, r) \<Longrightarrow> matchBody (dq # dq # s) = Some (dq # dq # m, r)"
  by (simp add: matchBody.simps [of "dq # dq # s"])

lemma matchBody_close:
  "r = [] \<or> hd r \<noteq> dq \<Longrightarrow> matchBody (dq # r) = Some ([dq], r)"
  using matchBody.simps [of "dq # r"] by (cases r) auto

lemma matchBody_escape:
  "r = [] \<or> hd r \<noteq> dq \<Longrightarrow>
   matchBody (escapeQuotes c @ dq # r) = Some (escapeQuotes c @ [dq], r)"
proof (induction c)
  case Nil
  then show ?case by (simp add: matchBody_close)
next
  case (Cons x c)
  show ?case
  proof (cases "x = dq")
    case True
    with Cons show ?thesis by (simp add: matchBody_pair_step)
  next
    case False
    with Cons show ?thesis by (simp add: matchBody_plain_step)
  qed
qed

lemma unescape_plain_step: "x \<noteq> dq \<Longrightarrow> unescape (x # s) = x # unescape s"
  by (cases s) simp_all

lemma unescape_escape: "unescape (escapeQuotes c) = c"
  by (induction c) (simp_all add: unescape_plain_step)

lemma matchAt_quoteField:
  "r = [] \<or> hd r \<noteq> dq \<Longrightarrow> matchAt (quoteField c @ r) = Some (quoteField c, r)"
  by (simp add: matchAt_def matchQuoted_def quoteField_def matchBody_escape)

lemma fieldOf_quoteField: "fieldOf (quoteField c) = trim c"
  by (simp add: fieldOf_def quoteField_def endsWith_def substring_def unescape_escape)

lemma matchAll_comma: "matchAll (comma # r) = matchAll r"
  by (simp add: matchAll.simps matchAt_def matchQuoted_def matchPlain_def dq_def comma_def)

lemma matchAll_quoteField:
  "r = [] \<or> hd r \<noteq> dq \<Longrightarrow> matchAll (quoteField c @ r) = quoteField c # matchAll r"
proof -
  assume r: "r = [] \<or> hd r \<noteq> dq"
  obtain x xs where x: "quoteField c @ r = x # xs" by (simp add: quoteField_def)
  have "matchAll (x # xs) = quoteField c # matchAll r"
    using matchAt_quoteField [OF r, of c] x by (simp add: matchAll.simps)
  with x show ?thesis by simp
qed

lemma parseLine_quoteField_last: "parseLine (quoteField c) = [trim c]"
  using matchAll_quoteField [of "[]" c]
  by (simp add: parseLine_def fieldOf_quoteField matchAll.simps)

lemma parseLine_quoteField_next:
  "parseLine (quoteField c @ comma # rest) = trim c # parseLine rest"
proof -
  have "comma # rest = [] \<or> hd (comma # rest) \<noteq> dq" by (simp add: dq_def comma_def)
  from matchAll_quoteField [OF this, of c] show ?thesis
    by (simp add: parseLine_def fieldOf_quoteField matchAll_comma)
qed

lemma isSpace_blanks: "isSpace c = (c \<in> blanks)"
  by (auto simp add: isSpace_def)

lemma trim_padded:
  assumes "set l \<subseteq> blanks" and "set r \<subseteq> blanks"
    and "m = [] \<or> (hd m \<notin> blanks \<and> last m \<notin> blanks)"
  shows "trim (l @ m @ r) = m"
proof -
  have l: "\<And>x. x \<in> set l \<Longrightarrow> isSpace x" using assms(1) isSpace_blanks by blast
  have r: "\<And>x. x \<in> set (rev r) \<Longrightarrow> isSpace x" using assms(2) isSpace_blanks by auto
  have a: "dropWhile isSpace (l @ m @ r) = dropWhile isSpace (m @ r)"
    by (rule dropWhile_append2) (rule l)
  show ?thesis
  proof (cases "m = []")
    case True
    have e: "dropWhile isSpace (l @ [] @ r) = []"
      using assms(1,2) isSpace_blanks by auto
    show ?thesis unfolding trim_def True e by simp
  next
    case False
    with assms(3) have h: "\<not> isSpace (hd m)" and t: "\<not> isSpace (last m)"
      using isSpace_blanks by blast+
    from False h have "dropWhile isSpace (m @ r) = m @ r" by (cases m) simp_all
    with a have b: "dropWhile isSpace (l @ m @ r) = m @ r" by simp
    have "dropWhile isSpace (rev r @ rev m) = dropWhile isSpace (rev m)"
      by (rule dropWhile_append2) (rule r)
    moreover from False t have "dropWhile isSpace (rev m) = rev m"
      by (cases "rev m") (simp_all add: hd_rev [symmetric])
    ultimately show ?thesis by (simp add: trim_def b)
  qed
qed

lemma matchAll_plain_field:
  assumes "p \<noteq> []" and "comma \<notin> set p" and "\<not> startsWith p [dq]"
    and "r = [] \<or> hd r = comma"
  shows "matchAll (p @ r) = p # matchAll r"
proof -
  obtain c cs where p: "p = c # cs" using assms(1) by (cases p) auto
  with assms(3) have c: "c \<noteq> dq" by simp
  then have mq: "matchQuoted (p @ r) = None" by (simp add: p matchQuoted_def)
  have ne: "\<And>x. x \<in> set p \<Longrightarrow> x \<noteq> comma" using assms(2) by auto
  have tr: "takeWhile (\<lambda>c. c \<noteq> comma) r = []" and dr: "dropWhile (\<lambda>c. c \<noteq> comma) r = r"
    using assms(4) by (cases r; simp)+
  have t: "takeWhile (\<lambda>c. c \<noteq> comma) (p @ r) = p"
    using ne tr by (simp add: takeWhile_append2)
  have d: "dropWhile (\<lambda>c. c \<noteq> comma) (p @ r) = r"
    using ne dr by (simp add: dropWhile_append2)
  have "matchAt (p @ r) = Some (p, r)"
    using mq t d assms(1) by (simp add: matchAt_def matchPlain_def)
  then show ?thesis by (simp add: p matchAll.simps)
qed

lemma fieldOf_plain: "\<not> startsWith m [dq] \<Longrightarrow> fieldOf m = trim m"
  by (simp add: fieldOf_def)

lemma parseLine_plain_field:
  assumes "comma \<notin> set p" and "\<not> startsWith p [dq]" and "r = [] \<or> hd r = comma"
  shows "parseLine (p @ r) = (if p = [] then [] else [trim p]) @ parseLine r"
proof (cases "p = []")
  case True
  then show ?thesis by simp
next
  case False
  with matchAll_plain_field [OF False assms] assms(2) show ?thesis
    by (simp add: parseLine_def fieldOf_plain)
qed

lemma parseLine_Nil: "parseLine [] = []"
  by (simp add: parseLine_def matchAll.simps)

lemma parseLine_comma: "parseLine (comma # r) = parseLine r"
  by (simp add: parseLine_def matchAll_comma)

lemma parseLine_joinFields:
  "(\<forall>f \<in> set fs. wellFormed f) \<Longrightarrow>
   parseLine (joinFields fs) = map tokenOf (filter (\<lambda>f. f \<noteq> Plain []) fs)"
proof (induction fs rule: joinFields.induct)
  case 1
  show ?case by (simp add: parseLine_Nil)
next
  case (2 f)
  show ?case
  proof (cases f)
    case (Plain p)
    with "2.prems" have "comma \<notin> set p" "\<not> startsWith p [dq]" by simp_all
    from parseLine_plain_field [OF this, of "[]"] Plain show ?thesis
      by (simp add: parseLine_Nil)
  next
    case (Quoted c)
    then show ?thesis by (simp add: parseLine_quoteField_last)
  qed
next
  case (3 f g fs)
  from "3.prems" have "\<forall>f \<in> set (g # fs). wellFormed f" by simp
  from "3.IH" [OF this]
  have ih: "parseLine (joinFields (g # fs)) = map tokenOf (filter (\<lambda>f. f \<noteq> Plain []) (g # fs))" .
  show ?case
  proof (cases f)
    case (Plain p)
    with "3.prems" have "comma \<notin> set p" "\<not> startsWith p [dq]" by simp_all
    from parseLine_plain_field [OF this, of "comma # joinFields (g # fs)"] Plain ih
    show ?thesis by (simp add: parseLine_comma)
  next
    case (Quoted c)
    with ih show ?thesis by (simp add: parseLine_quoteField_next)
  qed
qed

lemma joinFields_append_Quoted:
  "(\<forall>f \<in> set (before @ after). wellFormed f) \<Longrightarrow>
   parseLine (joinFields (before @ Quoted c # after)) =
     map tokenOf (filter (\<lambda>f. f \<noteq> Plain []) before) @ trim c
       # map tokenOf (filter (\<lambda>f. f \<noteq> Plain []) after)"
proof -
  assume "\<forall>f \<in> set (before @ after). wellFormed f"
  then have "\<forall>f \<in> set (before @ Quoted c # after). wellFormed f" by auto
  from parseLine_joinFields [OF this] show ?thesis by simp
qed

text \<open>
  Claim C3. A quoted field, written with every quote of its content doubled, is one
  token: its content with the doubled quotes turned back into single ones and then
  trimmed. This holds when the field is the whole line, when a comma and more text
  follow it, and when it stands anywhere in a line of well-formed fields. Trimming
  removes exactly the blanks at both ends: a content made of blanks, a middle part that
  neither begins nor ends with a blank, and blanks again gives the middle part. A comma
  inside the quotes does not split the field: \<open>"a, ""b"" c"\<close> is the one token
  \<open>a, "b" c\<close>, also with blanks inside the quotes around it and with the fields \<open>x\<close>
  and \<open>y\<close> before and after it.
\<close>

theorem parseLine_quoted_field:
  "parseLine (quoteField c) = [trim c]
   \<and> parseLine (quoteField c @ comma # rest) = trim c # parseLine rest
   \<and> ((\<forall>f \<in> set (before @ after). wellFormed f) \<longrightarrow>
        parseLine (joinFields (before @ Quoted c # after)) =
          map tokenOf (filter (\<lambda>f. f \<noteq> Plain []) before) @ trim c
            # map tokenOf (filter (\<lambda>f. f \<noteq> Plain []) after))
   \<and> (set l \<subseteq> blanks \<and> set r \<subseteq> blanks \<and> (m = [] \<or> hd m \<notin> blanks \<and> last m \<notin> blanks) \<longrightarrow>
        trim (l @ m @ r) = m \<and> parseLine (quoteField (l @ m @ r)) = [m])
   \<and> quoteField (''a, '' @ [dq] @ ''b'' @ [dq] @ '' c'')
       = [dq] @ ''a, '' @ [dq, dq] @ ''b'' @ [dq, dq] @ '' c'' @ [dq]
   \<and> parseLine ([dq] @ ''a, '' @ [dq, dq] @ ''b'' @ [dq, dq] @ '' c'' @ [dq])
       = [''a, '' @ [dq] @ ''b'' @ [dq] @ '' c'']
   \<and> parseLine ([dq] @ [CHR 0x09] @ '' a, '' @ [dq, dq] @ ''b'' @ [dq, dq] @ '' c ''
                  @ [CHR 0xA0] @ [dq])
       = [''a, '' @ [dq] @ ''b'' @ [dq] @ '' c'']
   \<and> parseLine (''x,'' @ [dq] @ ''a, '' @ [dq, dq] @ ''b'' @ [dq, dq] @ '' c'' @ [dq] @ '',y'')
       = [''x'', ''a, '' @ [dq] @ ''b'' @ [dq] @ '' c'', ''y'']"
proof (intro conjI impI)
  show "parseLine (quoteField c) = [trim c]" by (rule parseLine_quoteField_last)
  show "parseLine (quoteField c @ comma # rest) = trim c # parseLine rest"
    by (rule parseLine_quoteField_next)
next
  assume "\<forall>f \<in> set (before @ after). wellFormed f"
  then show "parseLine (joinFields (before @ Quoted c # after)) =
          map tokenOf (filter (\<lambda>f. f \<noteq> Plain []) before) @ trim c
            # map tokenOf (filter (\<lambda>f. f \<noteq> Plain []) after)"
    by (rule joinFields_append_Quoted)
next
  assume h: "set l \<subseteq> blanks \<and> set r \<subseteq> blanks \<and> (m = [] \<or> hd m \<notin> blanks \<and> last m \<notin> blanks)"
  then show t: "trim (l @ m @ r) = m" by (intro trim_padded) blast+
  show "parseLine (quoteField (l @ m @ r)) = [m]"
    unfolding parseLine_quoteField_last t ..
qed code_simp+

theorem parseLine_quoted_field_witness:
  "wellFormed (Plain ''x'') \<and> wellFormed (Plain []) \<and> wellFormed (Plain '' y '')
   \<and> parseLine (joinFields ([Plain ''x'', Plain []] @ Quoted '' a,b '' # [Plain '' y '']))
       = map tokenOf (filter (\<lambda>f. f \<noteq> Plain []) [Plain ''x'', Plain []]) @ trim '' a,b ''
            # map tokenOf (filter (\<lambda>f. f \<noteq> Plain []) [Plain '' y ''])
   \<and> set [CHR 0x09, CHR 0x20] \<subseteq> blanks \<and> set [CHR 0xA0, CHR 0x0D] \<subseteq> blanks
   \<and> (''a b'' = [] \<or> hd ''a b'' \<notin> blanks \<and> last ''a b'' \<notin> blanks)
   \<and> trim ([CHR 0x09, CHR 0x20] @ ''a b'' @ [CHR 0xA0, CHR 0x0D]) = ''a b''
   \<and> parseLine (quoteField ([CHR 0x09, CHR 0x20] @ ''a b'' @ [CHR 0xA0, CHR 0x0D])) = [''a b'']"
proof -
  have h1: "\<forall>f \<in> set ([Plain ''x'', Plain []] @ [Plain '' y '']). wellFormed f"
    by (simp add: comma_def dq_def)
  have h2: "set [CHR 0x09, CHR 0x20] \<subseteq> blanks \<and> set [CHR 0xA0, CHR 0x0D] \<subseteq> blanks
            \<and> (''a b'' = [] \<or> hd ''a b'' \<notin> blanks \<and> last ''a b'' \<notin> blanks)"
    by simp
  note t = parseLine_quoted_field [of "'' a,b ''" "[]" "[Plain ''x'', Plain []]" "[Plain '' y '']"
             "[CHR 0x09, CHR 0x20]" "[CHR 0xA0, CHR 0x0D]" "''a b''"]
  from t h1 have a: "parseLine (joinFields ([Plain ''x'', Plain []] @ Quoted '' a,b '' # [Plain '' y '']))
       = map tokenOf (filter (\<lambda>f. f \<noteq> Plain []) [Plain ''x'', Plain []]) @ trim '' a,b ''
            # map tokenOf (filter (\<lambda>f. f \<noteq> Plain []) [Plain '' y ''])"
    by blast
  from t h2 have b: "trim ([CHR 0x09, CHR 0x20] @ ''a b'' @ [CHR 0xA0, CHR 0x0D]) = ''a b''
   \<and> parseLine (quoteField ([CHR 0x09, CHR 0x20] @ ''a b'' @ [CHR 0xA0, CHR 0x0D])) = [''a b'']"
    by blast
  have w: "wellFormed (Plain ''x'') \<and> wellFormed (Plain []) \<and> wellFormed (Plain '' y '')"
    using h1 by simp
  from w h2 a b show ?thesis by blast
qed

section \<open>Properties of the answer check\<close>

lemma upperUnits_not_Nil: "upperUnits c \<noteq> []"
  by (simp add: upperUnits_def Let_def)

lemma toUpperCase_single:
  "(toUpperCase s = [k]) = (\<exists>c. s = [c] \<and> upperUnits c = [k])"
proof (cases s)
  case Nil
  then show ?thesis by (simp add: toUpperCase_def)
next
  case (Cons c cs)
  have ne: "upperUnits c \<noteq> []" by (rule upperUnits_not_Nil)
  show ?thesis
  proof (cases cs)
    case Nil
    with Cons show ?thesis by (simp add: toUpperCase_def)
  next
    case inner: (Cons d ds)
    have "upperUnits d \<noteq> []" by (rule upperUnits_not_Nil)
    with ne obtain x xs y ys where "upperUnits c = x # xs" "upperUnits d = y # ys"
      by (cases "upperUnits c"; cases "upperUnits d") auto
    then have "upperUnits c @ upperUnits d @ concat (map upperUnits ds) \<noteq> [k]"
      by simp
    with Cons inner show ?thesis by (simp add: toUpperCase_def)
  qed
qed

lemma of_char_eq_nat: "n < 256 \<Longrightarrow> ((of_char c :: nat) = n) = (c = char_of n)"
proof
  assume "(of_char c :: nat) = n"
  then have "char_of (of_char c :: nat) = char_of n" by simp
  then show "c = char_of n" by simp
next
  assume "n < 256" and "c = char_of n"
  then show "(of_char c :: nat) = n" by simp
qed

lemma upperUnits_letter:
  assumes "65 \<le> k" and "k \<le> 90"
  shows "(upperUnits c = [k]) = (c = char_of k \<or> c = char_of (k + 32))"
proof -
  let ?n = "of_char c :: nat"
  have "(upperUnits c = [k]) = (?n = k \<or> ?n = k + 32)"
    using assms by (auto simp add: upperUnits_def Let_def)
  moreover have "(?n = k) = (c = char_of k)" using assms by (intro of_char_eq_nat) simp
  moreover have "(?n = k + 32) = (c = char_of (k + 32))"
    using assms by (intro of_char_eq_nat) simp
  ultimately show ?thesis by simp
qed

lemma letter_codes:
  "char_of (65::nat) = CHR ''A''" "char_of (97::nat) = CHR ''a''"
  "char_of (66::nat) = CHR ''B''" "char_of (98::nat) = CHR ''b''"
  "char_of (67::nat) = CHR ''C''" "char_of (99::nat) = CHR ''c''"
  "char_of (68::nat) = CHR ''D''" "char_of (100::nat) = CHR ''d''"
  by (simp_all add: char_of_def bit_Suc_0_iff)

lemma toUpperCase_A: "(toUpperCase s = units ''A'') = (s = ''A'' \<or> s = ''a'')"
proof -
  have u: "units ''A'' = [65]" by (simp add: units_def)
  have "(upperUnits c = [65]) = (c = CHR ''A'' \<or> c = CHR ''a'')" for c
    using upperUnits_letter [of 65 c] by (simp add: letter_codes)
  then show ?thesis unfolding u toUpperCase_single by auto
qed

lemma toUpperCase_B: "(toUpperCase s = units ''B'') = (s = ''B'' \<or> s = ''b'')"
proof -
  have u: "units ''B'' = [66]" by (simp add: units_def)
  have "(upperUnits c = [66]) = (c = CHR ''B'' \<or> c = CHR ''b'')" for c
    using upperUnits_letter [of 66 c] by (simp add: letter_codes)
  then show ?thesis unfolding u toUpperCase_single by auto
qed

lemma toUpperCase_C: "(toUpperCase s = units ''C'') = (s = ''C'' \<or> s = ''c'')"
proof -
  have u: "units ''C'' = [67]" by (simp add: units_def)
  have "(upperUnits c = [67]) = (c = CHR ''C'' \<or> c = CHR ''c'')" for c
    using upperUnits_letter [of 67 c] by (simp add: letter_codes)
  then show ?thesis unfolding u toUpperCase_single by auto
qed

lemma toUpperCase_D: "(toUpperCase s = units ''D'') = (s = ''D'' \<or> s = ''d'')"
proof -
  have u: "units ''D'' = [68]" by (simp add: units_def)
  have "(upperUnits c = [68]) = (c = CHR ''D'' \<or> c = CHR ''d'')" for c
    using upperUnits_letter [of 68 c] by (simp add: letter_codes)
  then show ?thesis unfolding u toUpperCase_single by auto
qed

lemma checkAnswer_general:
  "checkAnswer sel (Some qu) =
     (correct qu = Some sel
      \<or> (\<exists>c opts. correct qu = Some c \<and> options qu = Some opts
            \<and> (toUpperCase (trim c) = units ''A'' \<and> elemAt opts 0 = Some sel
               \<or> toUpperCase (trim c) = units ''B'' \<and> elemAt opts 1 = Some sel
               \<or> toUpperCase (trim c) = units ''C'' \<and> elemAt opts 2 = Some sel
               \<or> toUpperCase (trim c) = units ''D'' \<and> elemAt opts 3 = Some sel)))"
proof -
  have d: "units ''A'' \<noteq> units ''B''" "units ''A'' \<noteq> units ''C''" "units ''A'' \<noteq> units ''D''"
    "units ''B'' \<noteq> units ''C''" "units ''B'' \<noteq> units ''D''" "units ''C'' \<noteq> units ''D''"
    by (simp_all add: units_def)
  show ?thesis
    by (cases "correct qu"; cases "options qu")
       (auto simp: checkAnswer_def Let_def numeral_2_eq_2 numeral_3_eq_3 d d [symmetric])
qed

text \<open>
  Claim C1. \<open>checkAnswer\<close> accepts a selected string exactly when it is the record's
  \<open>correct\<close> value, or that value, trimmed and in upper case, is one of the letters
  A, B, C, D and the option at index 0, 1, 2, 3 is the selected string. A string is
  such a letter in upper case exactly when it is that letter, capital or small, and
  trimming removes exactly the blanks at both ends. With the options Paris, Rome,
  Berlin, Madrid only Rome is accepted for the answers \<open>B\<close>, \<open>Rome\<close> and \<open>b\<close> between
  spaces, only Madrid for \<open>d\<close> between a no-break space, a tab and a line end, and none
  for \<open>E\<close> or \<open>B.\<close>; the string \<open>B\<close> itself is accepted for the answer \<open>B\<close>, by the
  first rule.
\<close>

theorem checkAnswer_rules:
  "checkAnswer sel (Some qu) =
     (correct qu = Some sel
      \<or> (\<exists>c opts. correct qu = Some c \<and> options qu = Some opts
            \<and> (toUpperCase (trim c) = units ''A'' \<and> elemAt opts 0 = Some sel
               \<or> toUpperCase (trim c) = units ''B'' \<and> elemAt opts 1 = Some sel
               \<or> toUpperCase (trim c) = units ''C'' \<and> elemAt opts 2 = Some sel
               \<or> toUpperCase (trim c) = units ''D'' \<and> elemAt opts 3 = Some sel)))
   \<and> (toUpperCase s = units ''A'') = (s = ''A'' \<or> s = ''a'')
   \<and> (toUpperCase s = units ''B'') = (s = ''B'' \<or> s = ''b'')
   \<and> (toUpperCase s = units ''C'') = (s = ''C'' \<or> s = ''c'')
   \<and> (toUpperCase s = units ''D'') = (s = ''D'' \<or> s = ''d'')
   \<and> (set l \<subseteq> blanks \<and> set r \<subseteq> blanks \<and> (m = [] \<or> hd m \<notin> blanks \<and> last m \<notin> blanks) \<longrightarrow>
        trim (l @ m @ r) = m)
   \<and> map (\<lambda>opt. checkAnswer opt
              (Some \<lparr>q = Some ''Capital of Italy?'',
                     options = Some [''Paris'', ''Rome'', ''Berlin'', ''Madrid''],
                     correct = Some ''B'', explanation = None, question_id = None\<rparr>))
          [''Paris'', ''Rome'', ''Berlin'', ''Madrid''] = [False, True, False, False]
   \<and> map (\<lambda>opt. checkAnswer opt
              (Some \<lparr>q = Some ''Capital of Italy?'',
                     options = Some [''Paris'', ''Rome'', ''Berlin'', ''Madrid''],
                     correct = Some ''Rome'', explanation = None, question_id = None\<rparr>))
          [''Paris'', ''Rome'', ''Berlin'', ''Madrid''] = [False, True, False, False]
   \<and> map (\<lambda>opt. checkAnswer opt
              (Some \<lparr>q = Some ''Capital of Italy?'',
                     options = Some [''Paris'', ''Rome'', ''Berlin'', ''Madrid''],
                     correct = Some '' b '', explanation = None, question_id = None\<rparr>))
          [''Paris'', ''Rome'', ''Berlin'', ''Madrid''] = [False, True, False, False]
   \<and> map (\<lambda>opt. checkAnswer opt
              (Some \<lparr>q = Some ''Capital of Italy?'',
                     options = Some [''Paris'', ''Rome'', ''Berlin'', ''Madrid''],
                     correct = Some ([CHR 0xA0, CHR 0x09] @ ''d'' @ [CHR 0x0D, CHR 0x0A]),
                     explanation = None, question_id = None\<rparr>))
          [''Paris'', ''Rome'', ''Berlin'', ''Madrid''] = [False, False, False, True]
   \<and> map (\<lambda>opt. checkAnswer opt
              (Some \<lparr>q = Some ''Capital of Italy?'',
                     options = Some [''Paris'', ''Rome'', ''Berlin'', ''Madrid''],
                     correct = Some ''E'', explanation = None, question_id = None\<rparr>))
          [''Paris'', ''Rome'', ''Berlin'', ''Madrid''] = [False, False, False, False]
   \<and> map (\<lambda>opt. checkAnswer opt
              (Some \<lparr>q = Some ''Capital of Italy?'',
                     options = Some [''Paris'', ''Rome'', ''Berlin'', ''Madrid''],
                     correct = Some ''B.'', explanation = None, question_id = None\<rparr>))
          [''Paris'', ''Rome'', ''Berlin'', ''Madrid''] = [False, False, False, False]
   \<and> checkAnswer ''B''
         (Some \<lparr>q = Some ''Capital of Italy?'',
                options = Some [''Paris'', ''Rome'', ''Berlin'', ''Madrid''],
                correct = Some ''B'', explanation = None, question_id = None\<rparr>)"
proof (intro conjI impI)
  show "checkAnswer sel (Some qu) =
     (correct qu = Some sel
      \<or> (\<exists>c opts. correct qu = Some c \<and> options qu = Some opts
            \<and> (toUpperCase (trim c) = units ''A'' \<and> elemAt opts 0 = Some sel
               \<or> toUpperCase (trim c) = units ''B'' \<and> elemAt opts 1 = Some sel
               \<or> toUpperCase (trim c) = units ''C'' \<and> elemAt opts 2 = Some sel
               \<or> toUpperCase (trim c) = units ''D'' \<and> elemAt opts 3 = Some sel)))"
    by (rule checkAnswer_general)
  show "(toUpperCase s = units ''A'') = (s = ''A'' \<or> s = ''a'')" by (rule toUpperCase_A)
  show "(toUpperCase s = units ''B'') = (s = ''B'' \<or> s = ''b'')" by (rule toUpperCase_B)
  show "(toUpperCase s = units ''C'') = (s = ''C'' \<or> s = ''c'')" by (rule toUpperCase_C)
  show "(toUpperCase s = units ''D'') = (s = ''D'' \<or> s = ''d'')" by (rule toUpperCase_D)
next
  assume "set l \<subseteq> blanks \<and> set r \<subseteq> blanks \<and> (m = [] \<or> hd m \<notin> blanks \<and> last m \<notin> blanks)"
  then show "trim (l @ m @ r) = m" by (intro trim_padded) blast+
qed code_simp+

theorem checkAnswer_rules_witness:
  "set [CHR 0xA0, CHR 0x09] \<subseteq> blanks \<and> set [CHR 0x0D, CHR 0x0A] \<subseteq> blanks
   \<and> (''d'' = [] \<or> hd ''d'' \<notin> blanks \<and> last ''d'' \<notin> blanks)
   \<and> trim ([CHR 0xA0, CHR 0x09] @ ''d'' @ [CHR 0x0D, CHR 0x0A]) = ''d''
   \<and> toUpperCase (trim ([CHR 0xA0, CHR 0x09] @ ''d'' @ [CHR 0x0D, CHR 0x0A])) = units ''D''"
proof -
  have h: "set [CHR 0xA0, CHR 0x09] \<subseteq> blanks \<and> set [CHR 0x0D, CHR 0x0A] \<subseteq> blanks
           \<and> (''d'' = [] \<or> hd ''d'' \<notin> blanks \<and> last ''d'' \<notin> blanks)"
    by simp
  note t = checkAnswer_rules [of _ _ "''d''" "[CHR 0xA0, CHR 0x09]" "[CHR 0x0D, CHR 0x0A]" "''d''"]
  from t h have a: "trim ([CHR 0xA0, CHR 0x09] @ ''d'' @ [CHR 0x0D, CHR 0x0A]) = ''d''"
    by blast
  from t have "(toUpperCase ''d'' = units ''D'') = (''d'' = ''D'' \<or> ''d'' = ''d'')" by blast
  then have b: "toUpperCase ''d'' = units ''D''" by simp
  from h a b show ?thesis by simp
qed

section \<open>Properties of the import\<close>

lemma fold_assignField:
  "fold assignField kvs r =
     \<lparr>rowQuestion = (rowQuestion r)
        \<lparr>q := lastOr (q (rowQuestion r)) (map snd (filter (\<lambda>kv. fst kv = Some ''q'') kvs)),
         correct := lastOr (correct (rowQuestion r))
                      (map snd (filter (\<lambda>kv. fst kv = Some ''correct'') kvs)),
         explanation := lastOr (explanation (rowQuestion r))
                      (map snd (filter (\<lambda>kv. fst kv = Some ''explanation'') kvs))\<rparr>,
      rowOptions = rowOptions r @ map snd (filter (\<lambda>kv. isOptionKey (fst kv)) kvs),
      hasQuestionText = (hasQuestionText r \<or> filter (\<lambda>kv. fst kv = Some ''q'') kvs \<noteq> [])\<rparr>"
proof (induction kvs arbitrary: r)
  case Nil
  show ?case by (simp add: lastOr_def)
next
  case (Cons kv kvs)
  obtain k v where kv: "kv = (k, v)" by (cases kv)
  consider (qt) "k = Some ''q''" | (opt) "k \<noteq> Some ''q''" "isOptionKey k"
    | (cor) "k = Some ''correct''" | (expl) "k = Some ''explanation''"
    | (other) "k \<noteq> Some ''q''" "\<not> isOptionKey k" "k \<noteq> Some ''correct''"
        "k \<noteq> Some ''explanation''"
    by blast
  then show ?case
  proof cases
    case qt
    then show ?thesis
      unfolding kv fold_Cons comp_apply Cons.IH
      by (simp add: assignField_def isOptionKey_def lastOr_def)
  next
    case opt
    then have "k \<noteq> Some ''correct''" "k \<noteq> Some ''explanation''"
      by (auto simp: isOptionKey_def)
    with opt show ?thesis
      unfolding kv fold_Cons comp_apply Cons.IH
      by (cases k) (simp_all add: assignField_def isOptionKey_def lastOr_def)
  next
    case cor
    then show ?thesis
      unfolding kv fold_Cons comp_apply Cons.IH
      by (simp add: assignField_def isOptionKey_def lastOr_def)
  next
    case expl
    then show ?thesis
      unfolding kv fold_Cons comp_apply Cons.IH
      by (simp add: assignField_def isOptionKey_def lastOr_def)
  next
    case other
    then show ?thesis
      unfolding kv fold_Cons comp_apply Cons.IH
      by (cases k) (simp_all add: assignField_def isOptionKey_def lastOr_def)
  qed
qed

lemma parseRows_append_acc:
  "parseRows H hm ls (acc @ qs) = acc @ parseRows H hm ls qs"
  by (induction ls arbitrary: qs) (simp_all add: Let_def)

lemma parseRows_acc: "parseRows H hm ls qs = qs @ parseRows H hm ls []"
  using parseRows_append_acc [of H hm ls qs "[]"] by simp

lemma parseRows_app:
  "parseRows H hm (xs @ ys) qs = parseRows H hm ys (parseRows H hm xs qs)"
  by (induction xs arbitrary: qs) (simp_all add: Let_def)

lemma parseRows_length: "length (parseRows H hm ls qs) \<le> length qs + length ls"
proof (induction ls arbitrary: qs)
  case Nil
  show ?case by simp
next
  case (Cons l ls)
  have a: "length (parseRows H hm ls qs) \<le> length qs + length ls" by (rule Cons.IH)
  have b: "length (parseRows H hm ls (qs @ [x])) \<le> Suc (length qs + length ls)" for x
    using Cons.IH [of "qs @ [x]"] by simp
  show ?case using a b by (auto simp add: Let_def intro: le_SucI)
qed


text \<open>
  Claim C2. A line that is tokenized and has as many fields as the header row adds its
  record to the result list, after the records of the lines before it, exactly when a
  column mapped to the question text is there, at least two values were collected from
  option columns, and the correct-answer value of the record is there and not empty.
  Otherwise the line adds nothing. Either way the lines after it are processed as
  they would be on their own.
\<close>

theorem parseRows_accepts_iff:
  assumes "trim l \<noteq> []" and "length (parseLine l) = length rawHeaders"
  shows "parseRows rawHeaders headerMap (l # ls) qs =
           qs @
           (let vs = parseLine l in
            if valuesOf ''q'' headerMap vs \<noteq> []
               \<and> 2 \<le> length (optionValues headerMap vs)
               \<and> truthy (lastOr None (valuesOf ''correct'' headerMap vs))
            then [\<lparr>q = lastOr None (valuesOf ''q'' headerMap vs),
                   options = Some (optionValues headerMap vs),
                   correct = lastOr None (valuesOf ''correct'' headerMap vs),
                   explanation = lastOr None (valuesOf ''explanation'' headerMap vs),
                   question_id = None\<rparr>]
            else []) @
           parseRows rawHeaders headerMap ls []"
proof -
  let ?vs = "parseLine l"
  let ?r = "assemble headerMap ?vs"
  have r: "?r = \<lparr>rowQuestion =
                  \<lparr>q = lastOr None (valuesOf ''q'' headerMap ?vs),
                   options = None,
                   correct = lastOr None (valuesOf ''correct'' headerMap ?vs),
                   explanation = lastOr None (valuesOf ''explanation'' headerMap ?vs),
                   question_id = None\<rparr>,
                rowOptions = optionValues headerMap ?vs,
                hasQuestionText = (valuesOf ''q'' headerMap ?vs \<noteq> [])\<rparr>"
    unfolding assemble_def fold_assignField
    by (simp add: emptyRow_def emptyQuestion_def valuesOf_def optionValues_def)
  have step: "parseRows rawHeaders headerMap (l # ls) qs =
                (if accepted ?r
                 then parseRows rawHeaders headerMap ls
                        (qs @ [(rowQuestion ?r)\<lparr>options := Some (rowOptions ?r)\<rparr>])
                 else parseRows rawHeaders headerMap ls qs)"
    using assms by (simp add: Let_def)
  show ?thesis
  proof (cases "accepted ?r")
    case True
    with step have "parseRows rawHeaders headerMap (l # ls) qs =
        (qs @ [(rowQuestion ?r)\<lparr>options := Some (rowOptions ?r)\<rparr>])
        @ parseRows rawHeaders headerMap ls []"
      using parseRows_acc [of rawHeaders headerMap ls
              "qs @ [(rowQuestion ?r)\<lparr>options := Some (rowOptions ?r)\<rparr>]"]
      by simp
    moreover from True have "valuesOf ''q'' headerMap ?vs \<noteq> []
               \<and> 2 \<le> length (optionValues headerMap ?vs)
               \<and> truthy (lastOr None (valuesOf ''correct'' headerMap ?vs))"
      unfolding r accepted_def by simp
    ultimately show ?thesis unfolding r by (simp add: Let_def)
  next
    case False
    with step have "parseRows rawHeaders headerMap (l # ls) qs =
        qs @ parseRows rawHeaders headerMap ls []"
      using parseRows_acc [of rawHeaders headerMap ls qs] by simp
    moreover from False have "\<not> (valuesOf ''q'' headerMap ?vs \<noteq> []
               \<and> 2 \<le> length (optionValues headerMap ?vs)
               \<and> truthy (lastOr None (valuesOf ''correct'' headerMap ?vs)))"
      unfolding r accepted_def by simp
    ultimately show ?thesis by (simp add: Let_def)
  qed
qed

theorem parseRows_accepts_iff_witness:
  "trim ''Q1,x,y,A'' \<noteq> []
   \<and> length (parseLine ''Q1,x,y,A'') = length (splitComma ''question,optiona,optionb,correct'')
   \<and> parseRows (splitComma ''question,optiona,optionb,correct'')
        (map mapHeader (splitComma ''question,optiona,optionb,correct'')) [''Q1,x,y,A''] []
      = [\<lparr>q = Some ''Q1'', options = Some [''x'', ''y''], correct = Some ''A'',
          explanation = None, question_id = None\<rparr>]
   \<and> parseRows (splitComma ''question,optiona,optionb,correct'')
        (map mapHeader (splitComma ''question,optiona,optionb,correct'')) [''Q1,x,y, ''] []
      = []"
proof -
  let ?H = "splitComma ''question,optiona,optionb,correct''"
  have h1: "trim ''Q1,x,y,A'' \<noteq> []" by code_simp
  have h2: "length (parseLine ''Q1,x,y,A'') = length ?H" by code_simp
  have g1: "trim ''Q1,x,y, '' \<noteq> []" by code_simp
  have g2: "length (parseLine ''Q1,x,y, '') = length ?H" by code_simp
  have e1: "(let vs = parseLine ''Q1,x,y,A'' in
            if valuesOf ''q'' (map mapHeader ?H) vs \<noteq> []
               \<and> 2 \<le> length (optionValues (map mapHeader ?H) vs)
               \<and> truthy (lastOr None (valuesOf ''correct'' (map mapHeader ?H) vs))
            then [\<lparr>q = lastOr None (valuesOf ''q'' (map mapHeader ?H) vs),
                   options = Some (optionValues (map mapHeader ?H) vs),
                   correct = lastOr None (valuesOf ''correct'' (map mapHeader ?H) vs),
                   explanation = lastOr None (valuesOf ''explanation'' (map mapHeader ?H) vs),
                   question_id = None\<rparr>]
            else [])
          = [\<lparr>q = Some ''Q1'', options = Some [''x'', ''y''], correct = Some ''A'',
          explanation = None, question_id = None\<rparr>]" by code_simp
  have e2: "(let vs = parseLine ''Q1,x,y, '' in
            if valuesOf ''q'' (map mapHeader ?H) vs \<noteq> []
               \<and> 2 \<le> length (optionValues (map mapHeader ?H) vs)
               \<and> truthy (lastOr None (valuesOf ''correct'' (map mapHeader ?H) vs))
            then [\<lparr>q = lastOr None (valuesOf ''q'' (map mapHeader ?H) vs),
                   options = Some (optionValues (map mapHeader ?H) vs),
                   correct = lastOr None (valuesOf ''correct'' (map mapHeader ?H) vs),
                   explanation = lastOr None (valuesOf ''explanation'' (map mapHeader ?H) vs),
                   question_id = None\<rparr>]
            else [])
          = []" by code_simp
  from parseRows_accepts_iff [OF h1 h2, of "map mapHeader ?H" "[]" "[]"] 
  have a: "parseRows ?H (map mapHeader ?H) [''Q1,x,y,A''] []
      = [\<lparr>q = Some ''Q1'', options = Some [''x'', ''y''], correct = Some ''A'',
          explanation = None, question_id = None\<rparr>]"
    unfolding e1 by simp
  from parseRows_accepts_iff [OF g1 g2, of "map mapHeader ?H" "[]" "[]"] 
  have b: "parseRows ?H (map mapHeader ?H) [''Q1,x,y, ''] [] = []"
    unfolding e2 by simp
  from h1 h2 a b show ?thesis by blast
qed

lemma parseRows_skip:
  "trim l = [] \<or> length (parseLine l) \<noteq> length H \<Longrightarrow>
   parseRows H hm (l # ls) qs = parseRows H hm ls qs"
  by (auto simp add: Let_def)

text \<open>
  Claim C4. A data line that is not blank and whose number of tokens differs from the
  number of header fields is skipped and the import goes on: wherever it stands among
  the data lines, the result is the result of the import without it. So \<open>N\<close> data
  lines of which one mismatches give at most \<open>N - 1\<close> records.
\<close>

theorem mismatching_row_skipped:
  assumes "trim l \<noteq> []" and "length (parseLine l) \<noteq> length rawHeaders"
  shows "parseRows rawHeaders headerMap (before @ l # after) [] =
           parseRows rawHeaders headerMap (before @ after) []
         \<and> length (parseRows rawHeaders headerMap (before @ l # after) [])
             \<le> length (before @ l # after) - 1"
proof -
  have skip: "parseRows rawHeaders headerMap (l # after) qs =
              parseRows rawHeaders headerMap after qs" for qs
    by (rule parseRows_skip) (simp add: assms(2))
  have eq: "parseRows rawHeaders headerMap (before @ l # after) [] =
            parseRows rawHeaders headerMap (before @ after) []"
    by (simp only: parseRows_app skip)
  have "length (parseRows rawHeaders headerMap (before @ after) []) \<le> length (before @ after)"
    using parseRows_length [of rawHeaders headerMap "before @ after" "[]"] by simp
  with eq show ?thesis by simp
qed

theorem mismatching_row_skipped_witness:
  "trim ''Q2,x,y'' \<noteq> []
   \<and> length (parseLine ''Q2,x,y'') \<noteq> length (splitComma ''question,optiona,optionb,correct'')
   \<and> parseRows (splitComma ''question,optiona,optionb,correct'')
        (map mapHeader (splitComma ''question,optiona,optionb,correct''))
        ([''Q1,x,y,A''] @ ''Q2,x,y'' # [''Q3,u,v,B'']) []
      = parseRows (splitComma ''question,optiona,optionb,correct'')
        (map mapHeader (splitComma ''question,optiona,optionb,correct''))
        ([''Q1,x,y,A''] @ [''Q3,u,v,B'']) []
   \<and> length (parseRows (splitComma ''question,optiona,optionb,correct'')
        (map mapHeader (splitComma ''question,optiona,optionb,correct''))
        ([''Q1,x,y,A''] @ ''Q2,x,y'' # [''Q3,u,v,B'']) [])
       \<le> length ([''Q1,x,y,A''] @ ''Q2,x,y'' # [''Q3,u,v,B'']) - 1"
proof -
  let ?H = "splitComma ''question,optiona,optionb,correct''"
  have h1: "trim ''Q2,x,y'' \<noteq> []" by code_simp
  have h2: "length (parseLine ''Q2,x,y'') \<noteq> length ?H" by code_simp
  from mismatching_row_skipped [OF h1 h2, of "map mapHeader ?H" "[''Q1,x,y,A'']" "[''Q3,u,v,B'']"]
    h1 h2
  show ?thesis by blast
qed

section \<open>Empty fields\<close>

lemma splitComma_not_Nil: "splitComma l \<noteq> []"
  by (induction l) (auto split: list.splits)

lemma joinFields_splitComma: "joinFields (map Plain (splitComma l)) = l"
proof (induction l)
  case Nil
  show ?case by simp
next
  case (Cons c l)
  obtain p ps where s: "splitComma l = p # ps"
    using splitComma_not_Nil [of l] by (cases "splitComma l") auto
  show ?case
  proof (cases "c = comma")
    case True
    with Cons s show ?thesis by simp
  next
    case False
    with Cons s show ?thesis by (cases ps) simp_all
  qed
qed

text \<open>
  Claim C10, as stated, fails. The row \<open>"Q"x,,a,b\<close> has an empty unquoted field and
  four comma-separated positions, as many as the header
  \<open>question,optiona,optionb,correct\<close>; it tokenizes to four fields, passes the
  column-count check and becomes a record. So does the row \<open>Q,,a,b,A\<close>, which has an
  empty field and five positions.
\<close>

theorem empty_field_row_not_skipped:
  "splitComma ([dq] @ ''Q'' @ [dq] @ ''x,,a,b'') = [[dq] @ ''Q'' @ [dq] @ ''x'', [], ''a'', ''b'']
   \<and> parseLine ([dq] @ ''Q'' @ [dq] @ ''x,,a,b'') = [''Q'', ''x'', ''a'', ''b'']
   \<and> length (splitComma ''question,optiona,optionb,correct'') = 4
   \<and> parseCSV (''question,optiona,optionb,correct'' @ [CHR 0x0A]
                 @ [dq] @ ''Q'' @ [dq] @ ''x,,a,b'')
       = [\<lparr>q = Some ''Q'', options = Some [''x'', ''a''], correct = Some ''b'',
           explanation = None, question_id = None\<rparr>]
   \<and> splitComma ''Q,,a,b,A'' = [''Q'', [], ''a'', ''b'', ''A'']
   \<and> parseLine ''Q,,a,b,A'' = [''Q'', ''a'', ''b'', ''A'']
   \<and> parseCSV (''question,optiona,optionb,correct'' @ [CHR 0x0A] @ ''Q,,a,b,A'')
       = [\<lparr>q = Some ''Q'', options = Some [''a'', ''b''], correct = Some ''A'',
           explanation = None, question_id = None\<rparr>]"
  by code_simp

text \<open>
  Claim C10, amended. A comma where a token would start contributes no token. Take a
  row of fields with commas in between, each field a quoted field or unquoted text
  that has no comma and does not begin with a quote; every line is such a row of its
  comma-separated pieces unless one of them begins with a quote. Its tokens are the
  trimmed contents of its fields, in order, without the empty unquoted fields. So a
  row with an empty unquoted field and no more fields than the header has tokenizes
  to fewer fields than the header and is skipped by the column-count check.
\<close>

theorem fields_row_with_empty_field_skipped:
  assumes "\<forall>f \<in> set fs. wellFormed f" and "Plain [] \<in> set fs"
    and "length fs \<le> length rawHeaders"
  shows "parseLine (comma # r) = parseLine r
         \<and> joinFields (map Plain (splitComma l)) = l
         \<and> parseLine (joinFields fs) = map tokenOf (filter (\<lambda>f. f \<noteq> Plain []) fs)
         \<and> length (parseLine (joinFields fs)) < length rawHeaders
         \<and> parseRows rawHeaders headerMap (joinFields fs # ls) qs
             = parseRows rawHeaders headerMap ls qs"
proof -
  have p: "parseLine (joinFields fs) = map tokenOf (filter (\<lambda>f. f \<noteq> Plain []) fs)"
    using assms(1) by (rule parseLine_joinFields)
  have "length (filter (\<lambda>f. f \<noteq> Plain []) fs) < length fs"
    using assms(2) by (intro length_filter_less [of "Plain []"]) simp_all
  with p assms(3) have len: "length (parseLine (joinFields fs)) < length rawHeaders" by simp
  then have "parseRows rawHeaders headerMap (joinFields fs # ls) qs
             = parseRows rawHeaders headerMap ls qs"
    by (intro parseRows_skip) simp
  with p len parseLine_comma joinFields_splitComma show ?thesis by blast
qed

theorem fields_row_with_empty_field_skipped_witness:
  "wellFormed (Quoted ''Q'') \<and> wellFormed (Plain []) \<and> wellFormed (Plain '' a'')
   \<and> wellFormed (Plain ''b'')
   \<and> Plain [] \<in> set [Quoted ''Q'', Plain [], Plain '' a'', Plain ''b'']
   \<and> length [Quoted ''Q'', Plain [], Plain '' a'', Plain ''b'']
       \<le> length (splitComma ''question,optiona,optionb,correct'')
   \<and> joinFields [Quoted ''Q'', Plain [], Plain '' a'', Plain ''b'']
       = [dq] @ ''Q'' @ [dq] @ '',, a,b''
   \<and> parseLine ([dq] @ ''Q'' @ [dq] @ '',, a,b'') = [''Q'', ''a'', ''b'']
   \<and> parseRows (splitComma ''question,optiona,optionb,correct'')
        (map mapHeader (splitComma ''question,optiona,optionb,correct''))
        (([dq] @ ''Q'' @ [dq] @ '',, a,b'') # [''Q3,u,v,B'']) []
      = parseRows (splitComma ''question,optiona,optionb,correct'')
        (map mapHeader (splitComma ''question,optiona,optionb,correct''))
        [''Q3,u,v,B''] []"
proof -
  let ?H = "splitComma ''question,optiona,optionb,correct''"
  let ?fs = "[Quoted ''Q'', Plain [], Plain '' a'', Plain ''b'']"
  have h1: "\<forall>f \<in> set ?fs. wellFormed f" by (simp add: comma_def dq_def)
  have h2: "Plain [] \<in> set ?fs" by simp
  have h3: "length ?fs \<le> length ?H" by code_simp
  have j: "joinFields ?fs = [dq] @ ''Q'' @ [dq] @ '',, a,b''" by code_simp
  have tk: "map tokenOf (filter (\<lambda>f. f \<noteq> Plain []) ?fs) = [''Q'', ''a'', ''b'']" by code_simp
  note t = fields_row_with_empty_field_skipped [OF h1 h2 h3, of "[]" "[]" "map mapHeader ?H"
             "[''Q3,u,v,B'']" "[]"]
  from t have a: "parseLine (joinFields ?fs) = map tokenOf (filter (\<lambda>f. f \<noteq> Plain []) ?fs)"
    and b: "parseRows ?H (map mapHeader ?H) (joinFields ?fs # [''Q3,u,v,B'']) []
             = parseRows ?H (map mapHeader ?H) [''Q3,u,v,B''] []"
    by blast+
  from a have a': "parseLine ([dq] @ ''Q'' @ [dq] @ '',, a,b'') = [''Q'', ''a'', ''b'']"
    unfolding j tk .
  from b have b': "parseRows ?H (map mapHeader ?H) (([dq] @ ''Q'' @ [dq] @ '',, a,b'') # [''Q3,u,v,B'']) []
             = parseRows ?H (map mapHeader ?H) [''Q3,u,v,B''] []"
    unfolding j .
  have w: "wellFormed (Quoted ''Q'') \<and> wellFormed (Plain []) \<and> wellFormed (Plain '' a'')
           \<and> wellFormed (Plain ''b'')"
    using h1 by simp
  from w h2 h3 j a' b' show ?thesis by blast
qed

section \<open>Properties of the navigation\<close>

lemma getEntry_setEntry:
  "getEntry (setEntry k v rs) j = (if j = k then Some v else getEntry rs j)"
  by (induction k v rs rule: setEntry.induct) auto

lemma getEntry_hideExplanation:
  "getEntry (hideExplanation d rs) j =
     (if j = d then Some ((responseAt rs d)\<lparr>isExplanationVisible := False\<rparr>)
      else getEntry rs j)"
  by (simp add: hideExplanation_def getEntry_setEntry)

text \<open>
  Claim C6. When the Previous or the Next button moves the current index, the entry of
  the index moved to gets its explanation flag cleared and keeps its selection and its
  correctness, and the entries of all other indices stay as they are. A jump from the
  list changes the current index and no entry at all, so the flag of the index jumped
  to stays as it was.
\<close>

theorem navigation_explanation_flag:
  "(0 < currentQuestionIndex s \<longrightarrow>
      currentQuestionIndex (onPressPrevious s) = currentQuestionIndex s - 1
      \<and> (\<forall>j. getEntry (userResponses (onPressPrevious s)) j =
             (if j = currentQuestionIndex s - 1
              then Some ((responseAt (userResponses s) j)\<lparr>isExplanationVisible := False\<rparr>)
              else getEntry (userResponses s) j)))
   \<and> (\<not> isLast s \<longrightarrow>
      currentQuestionIndex (onPressNext s) = currentQuestionIndex s + 1
      \<and> (\<forall>j. getEntry (userResponses (onPressNext s)) j =
             (if j = currentQuestionIndex s + 1
              then Some ((responseAt (userResponses s) j)\<lparr>isExplanationVisible := False\<rparr>)
              else getEntry (userResponses s) j)))
   \<and> currentQuestionIndex (onPressJump i s) = i
   \<and> userResponses (onPressJump i s) = userResponses s"
  by (simp add: onPressPrevious_def onPressNext_def onPressJump_def Let_def
        getEntry_hideExplanation)

theorem navigation_explanation_flag_witness:
  "0 < currentQuestionIndex (sampleSession 1) \<and> \<not> isLast (sampleSession 1)
   \<and> getEntry (userResponses (onPressPrevious (sampleSession 1))) 0 =
       Some \<lparr>selectedOption = Some ''Rome'', isCorrect = True, isExplanationVisible = False\<rparr>
   \<and> getEntry (userResponses (onPressNext (sampleSession 1))) 2 =
       Some \<lparr>selectedOption = Some ''Mars'', isCorrect = False, isExplanationVisible = False\<rparr>
   \<and> getEntry (userResponses (onPressNext (sampleSession 1))) 0 =
       Some \<lparr>selectedOption = Some ''Rome'', isCorrect = True, isExplanationVisible = True\<rparr>
   \<and> getEntry (userResponses (onPressJump 2 (sampleSession 1))) 2 =
       Some \<lparr>selectedOption = Some ''Mars'', isCorrect = False, isExplanationVisible = True\<rparr>"
proof -
  have h1: "0 < currentQuestionIndex (sampleSession 1)"
    by (simp add: sampleSession_def initialApp_def)
  have h2: "\<not> isLast (sampleSession 1)"
    by (simp add: sampleSession_def initialApp_def isLast_def withIds_def sampleQuestions_def)
  have r: "userResponses (sampleSession n) =
            [(0, \<lparr>selectedOption = Some ''Rome'', isCorrect = True,
                        isExplanationVisible = True\<rparr>),
                   (2, \<lparr>selectedOption = Some ''Mars'', isCorrect = False,
                        isExplanationVisible = True\<rparr>)]"
    and i: "currentQuestionIndex (sampleSession n) = n" for n
    by (simp_all add: sampleSession_def initialApp_def)
  from navigation_explanation_flag [of "sampleSession 1" 2] h1 h2
  show ?thesis by (simp add: r i responseAt_def)
qed

lemma sampleSession_length: "length (currentQuestions (sampleSession n)) = 3"
  by (simp add: sampleSession_def initialApp_def withIds_def sampleQuestions_def)

lemma sampleSession_index: "currentQuestionIndex (sampleSession n) = n"
  by (simp add: sampleSession_def initialApp_def)

lemma sampleSession_state: "quizState (sampleSession n) = PRACTICE"
  by (simp add: sampleSession_def initialApp_def)

text \<open>
  Claim C7. With the current index inside the list of questions: Previous at index 0
  only changes the screen to the topic selection, so the index stays; Next at the last
  index only changes the screen to the summary; at any other index Previous moves the
  index down by one and Next up by one, the screen stays, and the index is still inside
  the list.
\<close>

theorem navigation_bounds:
  assumes "currentQuestionIndex s < length (currentQuestions s)"
  shows "(currentQuestionIndex s = 0 \<longrightarrow>
            onPressPrevious s = s\<lparr>quizState := TOPIC_SELECT\<rparr>)
         \<and> (currentQuestionIndex s + 1 = length (currentQuestions s) \<longrightarrow>
            onPressNext s = s\<lparr>quizState := SUMMARY\<rparr>)
         \<and> (0 < currentQuestionIndex s \<longrightarrow>
            currentQuestionIndex (onPressPrevious s) = currentQuestionIndex s - 1
            \<and> quizState (onPressPrevious s) = quizState s
            \<and> currentQuestions (onPressPrevious s) = currentQuestions s
            \<and> currentQuestionIndex (onPressPrevious s) < length (currentQuestions (onPressPrevious s)))
         \<and> (currentQuestionIndex s + 1 \<noteq> length (currentQuestions s) \<longrightarrow>
            currentQuestionIndex (onPressNext s) = currentQuestionIndex s + 1
            \<and> quizState (onPressNext s) = quizState s
            \<and> currentQuestions (onPressNext s) = currentQuestions s
            \<and> currentQuestionIndex (onPressNext s) < length (currentQuestions (onPressNext s)))"
  using assms by (auto simp add: onPressPrevious_def onPressNext_def isLast_def Let_def)

theorem navigation_bounds_witness:
  "currentQuestionIndex (sampleSession 0) < length (currentQuestions (sampleSession 0))
   \<and> currentQuestionIndex (sampleSession 0) = 0
   \<and> quizState (onPressPrevious (sampleSession 0)) = TOPIC_SELECT
   \<and> currentQuestionIndex (onPressPrevious (sampleSession 0)) = 0
   \<and> currentQuestionIndex (sampleSession 0) + 1 \<noteq> length (currentQuestions (sampleSession 0))
   \<and> currentQuestionIndex (onPressNext (sampleSession 0)) = 1
   \<and> quizState (onPressNext (sampleSession 0)) = PRACTICE
   \<and> currentQuestionIndex (sampleSession 2) < length (currentQuestions (sampleSession 2))
   \<and> currentQuestionIndex (sampleSession 2) + 1 = length (currentQuestions (sampleSession 2))
   \<and> quizState (onPressNext (sampleSession 2)) = SUMMARY
   \<and> currentQuestionIndex (onPressNext (sampleSession 2)) = 2
   \<and> 0 < currentQuestionIndex (sampleSession 2)
   \<and> currentQuestionIndex (onPressPrevious (sampleSession 2)) = 1
   \<and> quizState (onPressPrevious (sampleSession 2)) = PRACTICE"
proof -
  have a: "currentQuestionIndex (sampleSession 0) < length (currentQuestions (sampleSession 0))"
    by (simp add: sampleSession_length sampleSession_index)
  have b: "currentQuestionIndex (sampleSession 2) < length (currentQuestions (sampleSession 2))"
    by (simp add: sampleSession_length sampleSession_index)
  from navigation_bounds [OF a] navigation_bounds [OF b] show ?thesis
    by (simp add: sampleSession_length sampleSession_index sampleSession_state)
qed

section \<open>Properties of starting a session\<close>

lemma length_withIds: "length (withIds clock l) = length l"
  by (simp add: withIds_def)

lemma nth_withIds:
  "i < length l \<Longrightarrow>
   withIds clock l ! i = (l ! i)\<lparr>question_id := Some (showNat i @ ''-'' @ showNat (clock i))\<rparr>"
  by (simp add: withIds_def nth_enumerate_eq)

text \<open>
  Claim C8. With no list or an empty list \<open>startPractice\<close> only sets the message: every
  other part of the state is kept. With a non-empty list it goes to the practice screen
  with index 0, no responses, and the questions of the list in order, each with the id
  made of its index and the clock. Called from another screen than the practice
  screen, it leaves the state as it was but for the message exactly when the list is
  missing or empty.
\<close>

theorem startPractice_cases:
  "startPractice clock None s = s\<lparr>message := ''No questions to practice.''\<rparr>
   \<and> startPractice clock (Some []) s = s\<lparr>message := ''No questions to practice.''\<rparr>
   \<and> (l \<noteq> [] \<longrightarrow>
        startPractice clock (Some l) s =
          s\<lparr>currentQuestions := withIds clock l, currentQuestionIndex := 0,
            userResponses := [], quizState := PRACTICE, isDrawerOpen := False\<rparr>
        \<and> length (withIds clock l) = length l
        \<and> (\<forall>i < length l. withIds clock l ! i =
              (l ! i)\<lparr>question_id := Some (showNat i @ ''-'' @ showNat (clock i))\<rparr>))
   \<and> (quizState s \<noteq> PRACTICE \<longrightarrow>
        (startPractice clock ql s = s\<lparr>message := ''No questions to practice.''\<rparr>)
          = (ql = None \<or> ql = Some []))"
proof (intro conjI impI)
  assume l: "l \<noteq> []"
  then show "startPractice clock (Some l) s =
          s\<lparr>currentQuestions := withIds clock l, currentQuestionIndex := 0,
            userResponses := [], quizState := PRACTICE, isDrawerOpen := False\<rparr>"
    by (simp add: startPractice_def)
  show "length (withIds clock l) = length l" by (rule length_withIds)
  show "\<forall>i < length l. withIds clock l ! i =
              (l ! i)\<lparr>question_id := Some (showNat i @ ''-'' @ showNat (clock i))\<rparr>"
    by (simp add: nth_withIds)
next
  assume ns: "quizState s \<noteq> PRACTICE"
  show "(startPractice clock ql s = s\<lparr>message := ''No questions to practice.''\<rparr>)
          = (ql = None \<or> ql = Some [])"
  proof (cases ql)
    case None
    then show ?thesis by (simp add: startPractice_def)
  next
    case (Some l)
    show ?thesis
    proof (cases "l = []")
      case True
      with Some show ?thesis by (simp add: startPractice_def)
    next
      case False
      with Some have "quizState (startPractice clock ql s) = PRACTICE"
        by (simp add: startPractice_def)
      moreover have "quizState (s\<lparr>message := ''No questions to practice.''\<rparr>) \<noteq> PRACTICE"
        using ns by simp
      ultimately have "startPractice clock ql s \<noteq> s\<lparr>message := ''No questions to practice.''\<rparr>"
        by metis
      with Some False show ?thesis by simp
    qed
  qed
qed (simp_all add: startPractice_def)

theorem startPractice_cases_witness:
  "sampleQuestions \<noteq> []
   \<and> quizState initialApp \<noteq> PRACTICE
   \<and> quizState (startPractice (\<lambda>i. 1000 + i) (Some sampleQuestions) initialApp) = PRACTICE
   \<and> currentQuestionIndex (startPractice (\<lambda>i. 1000 + i) (Some sampleQuestions) initialApp) = 0
   \<and> userResponses (startPractice (\<lambda>i. 1000 + i) (Some sampleQuestions) initialApp) = []
   \<and> map question_id
        (currentQuestions (startPractice (\<lambda>i. 1000 + i) (Some sampleQuestions) initialApp))
      = [Some ''0-1000'', Some ''1-1001'', Some ''2-1002'']
   \<and> startPractice (\<lambda>i. 1000 + i) (Some sampleQuestions) initialApp
       \<noteq> initialApp\<lparr>message := ''No questions to practice.''\<rparr>"
proof -
  have h1: "sampleQuestions \<noteq> []" by (simp add: sampleQuestions_def)
  have h2: "quizState initialApp \<noteq> PRACTICE" by (simp add: initialApp_def)
  have ids: "map question_id (withIds (\<lambda>i. 1000 + i) sampleQuestions)
             = [Some ''0-1000'', Some ''1-1001'', Some ''2-1002'']"
    by code_simp
  note t = startPractice_cases [of "\<lambda>i. 1000 + i" initialApp sampleQuestions
                                  "Some sampleQuestions"]
  from t h1 have eq: "startPractice (\<lambda>i. 1000 + i) (Some sampleQuestions) initialApp =
          initialApp\<lparr>currentQuestions := withIds (\<lambda>i. 1000 + i) sampleQuestions,
            currentQuestionIndex := 0, userResponses := [], quizState := PRACTICE,
            isDrawerOpen := False\<rparr>"
    by blast
  from t h1 h2 have ne: "startPractice (\<lambda>i. 1000 + i) (Some sampleQuestions) initialApp
       \<noteq> initialApp\<lparr>message := ''No questions to practice.''\<rparr>"
    by blast
  have c: "quizState (startPractice (\<lambda>i. 1000 + i) (Some sampleQuestions) initialApp) = PRACTICE
   \<and> currentQuestionIndex (startPractice (\<lambda>i. 1000 + i) (Some sampleQuestions) initialApp) = 0
   \<and> userResponses (startPractice (\<lambda>i. 1000 + i) (Some sampleQuestions) initialApp) = []
   \<and> map question_id
        (currentQuestions (startPractice (\<lambda>i. 1000 + i) (Some sampleQuestions) initialApp))
      = [Some ''0-1000'', Some ''1-1001'', Some ''2-1002'']"
    by (simp add: eq ids)
  from h1 h2 c ne show ?thesis by blast
qed

section \<open>Properties of the topic store\<close>

text \<open>
  Claim C9, as stated, fails. With a topic \<open>Math\<close> in the store, an import under the
  name \<open>math\<close> whose content has no valid question is turned down with the message for
  content without questions, not with the one for a duplicate name: that check comes
  first. The store is unchanged.
\<close>

theorem duplicate_name_other_error:
  "map topicName (topics headerOnlyAttempt) = [''Math'']
   \<and> toLowerCase ''Math'' = toLowerCase (trim (newTopicName headerOnlyAttempt))
   \<and> message (handleImport 2 headerOnlyAttempt) = ''No valid questions parsed from content.''
   \<and> message (handleImport 2 headerOnlyAttempt) \<noteq> ''Topic with this name already exists.''
   \<and> topics (handleImport 2 headerOnlyAttempt) = topics headerOnlyAttempt"
  by code_simp

text \<open>
  Claim C9, amended. An import under a name that, trimmed and in lower case, equals
  the lower-case name of a topic in the store never changes the store. It is turned
  down with the duplicate-name message, and nothing but the message changes, whenever
  the checks before it pass: the content is not blank, the name is not blank and the
  content has at least one valid question. After importing \<open>Math\<close>, an attempt under
  \<open>mAtH\<close> between spaces leaves exactly the one topic \<open>Math\<close>; the same holds for a
  name with an accented capital and an attempt in the other case between a no-break
  space and a tab.
\<close>

theorem duplicate_name_import:
  assumes "t \<in> set (topics s)"
    and "toLowerCase (topicName t) = toLowerCase (trim (newTopicName s))"
  shows "topics (handleImport now s) = topics s
         \<and> (trim (csvContent s) \<noteq> [] \<and> trim (newTopicName s) \<noteq> []
              \<and> parseCSV (csvContent s) \<noteq> [] \<longrightarrow>
            handleImport now s = s\<lparr>message := ''Topic with this name already exists.''\<rparr>)"
proof -
  from assms have "list_ex (\<lambda>t. toLowerCase (topicName t) = toLowerCase (trim (newTopicName s)))
                     (topics s)"
    unfolding list_ex_iff by blast
  then show ?thesis by (simp add: handleImport_def Let_def)
qed

lemma topics_afterMath:
  "topics afterMath =
     [\<lparr>topic_id = ''topic-1'', topicName = ''Math'',
       questions = [\<lparr>q = Some ''2 + 2?'', options = Some [''3'', ''4''], correct = Some ''B'',
                     explanation = None, question_id = None\<rparr>]\<rparr>]"
  by code_simp

lemma topics_afterEcole:
  "topics afterEcole =
     [\<lparr>topic_id = ''topic-1'', topicName = [CHR 0xC9] @ ''cole'',
       questions = [\<lparr>q = Some ''2 + 2?'', options = Some [''3'', ''4''], correct = Some ''B'',
                     explanation = None, question_id = None\<rparr>]\<rparr>]"
  by code_simp

theorem duplicate_name_import_witness:
  "\<lparr>topic_id = ''topic-1'', topicName = ''Math'',
       questions = [\<lparr>q = Some ''2 + 2?'', options = Some [''3'', ''4''], correct = Some ''B'',
                     explanation = None, question_id = None\<rparr>]\<rparr> \<in> set (topics secondAttempt)
   \<and> toLowerCase ''Math'' = toLowerCase (trim (newTopicName secondAttempt))
   \<and> trim (csvContent secondAttempt) \<noteq> [] \<and> trim (newTopicName secondAttempt) \<noteq> []
   \<and> parseCSV (csvContent secondAttempt) \<noteq> []
   \<and> topics (handleImport 2 secondAttempt) = topics afterMath
   \<and> map topicName (topics (handleImport 2 secondAttempt)) = [''Math'']
   \<and> message (handleImport 2 secondAttempt) = ''Topic with this name already exists.''
   \<and> \<lparr>topic_id = ''topic-1'', topicName = [CHR 0xC9] @ ''cole'',
       questions = [\<lparr>q = Some ''2 + 2?'', options = Some [''3'', ''4''], correct = Some ''B'',
                     explanation = None, question_id = None\<rparr>]\<rparr> \<in> set (topics ecoleAttempt)
   \<and> toLowerCase ([CHR 0xC9] @ ''cole'') = toLowerCase (trim (newTopicName ecoleAttempt))
   \<and> trim (csvContent ecoleAttempt) \<noteq> [] \<and> trim (newTopicName ecoleAttempt) \<noteq> []
   \<and> parseCSV (csvContent ecoleAttempt) \<noteq> []
   \<and> map topicName (topics (handleImport 2 ecoleAttempt)) = [[CHR 0xC9] @ ''cole'']
   \<and> message (handleImport 2 ecoleAttempt) = ''Topic with this name already exists.''"
proof -
  let ?t = "\<lparr>topic_id = ''topic-1'', topicName = ''Math'',
       questions = [\<lparr>q = Some ''2 + 2?'', options = Some [''3'', ''4''], correct = Some ''B'',
                     explanation = None, question_id = None\<rparr>]\<rparr>"
  let ?u = "\<lparr>topic_id = ''topic-1'', topicName = [CHR 0xC9] @ ''cole'',
       questions = [\<lparr>q = Some ''2 + 2?'', options = Some [''3'', ''4''], correct = Some ''B'',
                     explanation = None, question_id = None\<rparr>]\<rparr>"
  have ts: "topics secondAttempt = topics afterMath" by (simp add: secondAttempt_def)
  have h1: "?t \<in> set (topics secondAttempt)" by (simp add: ts topics_afterMath)
  have h2: "toLowerCase (topicName ?t) = toLowerCase (trim (newTopicName secondAttempt))"
    by code_simp
  have h3: "trim (csvContent secondAttempt) \<noteq> []" by code_simp
  have h4: "trim (newTopicName secondAttempt) \<noteq> []" by code_simp
  have h5: "parseCSV (csvContent secondAttempt) \<noteq> []" by code_simp
  from duplicate_name_import [OF h1 h2, of 2] h3 h4 h5
  have a: "topics (handleImport 2 secondAttempt) = topics secondAttempt"
    and b: "handleImport 2 secondAttempt
            = secondAttempt\<lparr>message := ''Topic with this name already exists.''\<rparr>"
    by blast+
  have c: "message (handleImport 2 secondAttempt) = ''Topic with this name already exists.''"
    unfolding b by simp
  have d: "map topicName (topics (handleImport 2 secondAttempt)) = [''Math'']"
    unfolding a ts topics_afterMath by simp
  have es: "topics ecoleAttempt = topics afterEcole" by (simp add: ecoleAttempt_def)
  have k1: "?u \<in> set (topics ecoleAttempt)" by (simp add: es topics_afterEcole)
  have k2: "toLowerCase (topicName ?u) = toLowerCase (trim (newTopicName ecoleAttempt))"
    by code_simp
  have k3: "trim (csvContent ecoleAttempt) \<noteq> []" by code_simp
  have k4: "trim (newTopicName ecoleAttempt) \<noteq> []" by code_simp
  have k5: "parseCSV (csvContent ecoleAttempt) \<noteq> []" by code_simp
  from duplicate_name_import [OF k1 k2, of 2] k3 k4 k5
  have a2: "topics (handleImport 2 ecoleAttempt) = topics ecoleAttempt"
    and b2: "handleImport 2 ecoleAttempt
            = ecoleAttempt\<lparr>message := ''Topic with this name already exists.''\<rparr>"
    by blast+
  have c2: "message (handleImport 2 ecoleAttempt) = ''Topic with this name already exists.''"
    unfolding b2 by simp
  have d2: "map topicName (topics (handleImport 2 ecoleAttempt)) = [[CHR 0xC9] @ ''cole'']"
    unfolding a2 es topics_afterEcole by simp
  from h1 h2 h3 h4 h5 a c d k1 k2 k3 k4 k5 c2 d2 show ?thesis unfolding ts by simp
qed

section \<open>Properties of the score\<close>

lemma fold_countEntry:
  "fold (countEntry qs) rs t =
     \<lparr>tAttempted = tAttempted t
        + length (filter (\<lambda>kr. truthy (selectedOption (snd kr))) rs),
      tCorrects = tCorrects t
        + length (filter (\<lambda>kr. isCorrect (snd kr))
                    (filter (\<lambda>kr. truthy (selectedOption (snd kr))) rs)),
      tIncorrects = tIncorrects t
        @ concat (map (\<lambda>kr. case elemAt qs (fst kr) of None \<Rightarrow> [] | Some orig \<Rightarrow> [orig])
                    (filter (\<lambda>kr. \<not> isCorrect (snd kr))
                       (filter (\<lambda>kr. truthy (selectedOption (snd kr))) rs)))\<rparr>"
proof (induction rs arbitrary: t)
  case Nil
  show ?case by simp
next
  case (Cons kr rs)
  show ?case
    unfolding fold_Cons comp_apply Cons.IH
    by (cases "elemAt qs (fst kr)") (simp_all add: countEntry_def Let_def)
qed

lemma calculateScore_fields:
  "attempted (calculateScore s) = length (attemptedEntries s)"
  "finalScore (calculateScore s) = length (filter (\<lambda>kr. isCorrect (snd kr)) (attemptedEntries s))"
  "incorrects (calculateScore s) =
     concat (map (\<lambda>kr. case elemAt (currentQuestions s) (fst kr) of
                         None \<Rightarrow> [] | Some orig \<Rightarrow> [orig])
               (filter (\<lambda>kr. \<not> isCorrect (snd kr)) (attemptedEntries s)))"
  "total (calculateScore s) = length (currentQuestions s)"
  "unanswered (calculateScore s) = int (length (currentQuestions s)) - int (length (attemptedEntries s))"
  "accuracy (calculateScore s) =
     (if attempted (calculateScore s) > 0
      then mathRound (fmul (fdiv (finalScore (calculateScore s)) (attempted (calculateScore s))) 100)
      else 0)"
  by (simp_all add: calculateScore_def Let_def fold_countEntry attemptedEntries_def)

lemma bits_numeral:
  "bits 0 = 0" "bits 1 = 1"
  "bits (numeral (Num.Bit0 n)) = Suc (bits (numeral n))"
  "bits (numeral (Num.Bit1 n)) = Suc (bits (numeral n))"
  by (simp_all add: bits.simps [of 0] bits.simps [of "Suc 0"]
        bits.simps [of "numeral (Num.Bit0 n)"] bits.simps [of "numeral (Num.Bit1 n)"])

lemma accuracy_23_of_40: "mathRound (fmul (fdiv 23 40) 100) = 57"
proof -
  have d: "fdiv 23 40 = (5179139571476070, - 53)"
    by (simp add: fdiv_def fl_def scaled_def roundHalfEven_def bits_numeral Let_def)
  have m: "fmul (5179139571476070, - 53) 100 = (8092405580431359, - 47)"
    by (simp add: fmul_def fl_def scaled_def roundHalfEven_def bits_numeral Let_def)
  show ?thesis unfolding d m by (simp add: mathRound_def Let_def)
qed

lemma accuracy_4_of_6: "mathRound (fmul (fdiv 4 6) 100) = 67"
  by (simp add: fdiv_def fmul_def fl_def scaled_def roundHalfEven_def bits_numeral Let_def mathRound_def)

lemma session23of40_state:
  "(userResponses session23of40, length (currentQuestions session23of40)) =
     (map (\<lambda>i. (i, \<lparr>selectedOption = Some (if i < 23 then ''Rome'' else ''Paris''),
                     isCorrect = (i < 23), isExplanationVisible = False\<rparr>)) [0..<40],
      40)"
  by code_simp

lemma session23of40_counts:
  "length (attemptedEntries session23of40) = 40"
  "length (filter (\<lambda>kr. isCorrect (snd kr)) (attemptedEntries session23of40)) = 23"
  "length (currentQuestions session23of40) = 40"
proof -
  from session23of40_state
  have r: "userResponses session23of40 =
     map (\<lambda>i. (i, \<lparr>selectedOption = Some (if i < 23 then ''Rome'' else ''Paris''),
                     isCorrect = (i < 23), isExplanationVisible = False\<rparr>)) [0..<40]"
    and l: "length (currentQuestions session23of40) = 40"
    by simp_all
  show "length (attemptedEntries session23of40) = 40"
    unfolding attemptedEntries_def r by code_simp
  show "length (filter (\<lambda>kr. isCorrect (snd kr)) (attemptedEntries session23of40)) = 23"
    unfolding attemptedEntries_def r by code_simp
  show "length (currentQuestions session23of40) = 40" by (rule l)
qed

text \<open>
  Claim C5. The counts are as claimed (\<open>calculateScore_fields\<close>), and 4 right out of 6
  gives 67 (\<open>accuracy_4_of_6\<close>). The accuracy is not always the rounded percentage:
  after 23 right answers out of 40 attempted, \<open>23 / 40\<close> is rounded to a binary64 value
  just below 0.575, its product with 100 to one just below 57.5, and
  \<open>calculateScore\<close> returns 57, where the percentage 57.5 rounds to 58.
\<close>

theorem calculateScore_accuracy_23_of_40:
  "attempted (calculateScore session23of40) = 40
   \<and> finalScore (calculateScore session23of40) = 23
   \<and> total (calculateScore session23of40) = 40
   \<and> accuracy (calculateScore session23of40) = 57
   \<and> roundedPercent 23 40 = 58"
proof -
  have a: "attempted (calculateScore session23of40) = 40"
    and f: "finalScore (calculateScore session23of40) = 23"
    and t: "total (calculateScore session23of40) = 40"
    by (simp_all add: calculateScore_fields session23of40_counts)
  have "accuracy (calculateScore session23of40) = mathRound (fmul (fdiv 23 40) 100)"
    unfolding calculateScore_fields(6) a f by simp
  then have c: "accuracy (calculateScore session23of40) = 57"
    by (simp only: accuracy_23_of_40)
  have r: "roundedPercent 23 40 = 58" by (simp add: roundedPercent_def)
  from a f t c r show ?thesis by blast
qed

end
